theory Spec2Isabelle
  imports Complex_Main "HOL-Library.Sublist"
begin

section \<open>JavaScript values and strings\<close>

text \<open>
  The route handler of \<^verbatim>\<open>src/app/api/file-process/route.ts\<close> passes
  \<^verbatim>\<open>any\<close>-typed values between its stages: parsed documents, model replies and
  analytics results. They are embedded as one datatype of JavaScript values. An object is
  the list of its own enumerable properties in enumeration order (array indices first,
  ascending, then the other keys as they were created); object identity is not part of
  the embedding. A built-in function, which a value can inherit from its prototype, is
  carried by its name. A number is carried as a rational; the code only ever observes
  whether it is zero. A string is a list of characters, each standing for one code unit
  below 256.
\<close>

datatype jsval =
    JUndefined
  | JNull
  | JBool bool
  | JNum rat
  | JStr string
  | JArr "jsval list"
  | JObj "(string \<times> jsval) list"
  | JFunction string

datatype error = Error string

text \<open>\<^verbatim>\<open>error.message\<close>\<close>

fun message :: "error \<Rightarrow> string" where
  "message (Error m) = m"

text \<open>\<^verbatim>\<open>typeof v === 'object'\<close> (true of \<^verbatim>\<open>null\<close> and of arrays).\<close>

fun isObject :: "jsval \<Rightarrow> bool" where
  "isObject JNull = True"
| "isObject (JArr xs) = True"
| "isObject (JObj kvs) = True"
| "isObject v = False"

text \<open>Truthiness, as \<^verbatim>\<open>if (v)\<close> and \<^verbatim>\<open>!v\<close> test it.\<close>

fun truthy :: "jsval \<Rightarrow> bool" where
  "truthy JUndefined = False"
| "truthy JNull = False"
| "truthy (JBool b) = b"
| "truthy (JNum n) = (n \<noteq> 0)"
| "truthy (JStr s) = (s \<noteq> [])"
| "truthy (JArr xs) = True"
| "truthy (JObj kvs) = True"
| "truthy (JFunction f) = True"

text \<open>Decimal rendering of an array index, as \<^verbatim>\<open>Object.entries\<close> names it.\<close>

definition digitChar :: "nat \<Rightarrow> char" where
  "digitChar d = ''0123456789'' ! d"

fun showNat :: "nat \<Rightarrow> string" where
  "showNat n = (if n < 10 then [digitChar n] else showNat (n div 10) @ [digitChar (n mod 10)])"

declare showNat.simps [simp del]

text \<open>\<^verbatim>\<open>Object.entries(v)\<close> for a value with \<^verbatim>\<open>typeof v === 'object'\<close>.\<close>

fun objectEntries :: "jsval \<Rightarrow> (string \<times> jsval) list" where
  "objectEntries (JObj kvs) = kvs"
| "objectEntries (JArr xs) = zip (map showNat [0..<length xs]) xs"
| "objectEntries v = []"

text \<open>
  A property key is an array index when it is the decimal numeral, without leading zero,
  of a number below \<open>2\<^sup>3\<^sup>2 - 1\<close>.
\<close>

definition digitValue :: "char \<Rightarrow> nat" where
  "digitValue c =
     (case map_of (zip ''0123456789'' [0, 1, 2, 3, 4, 5, 6, 7, 8, 9]) c of Some d \<Rightarrow> d | None \<Rightarrow> 0)"

definition keyIndex :: "string \<Rightarrow> nat option" where
  "keyIndex k =
     (if k \<noteq> [] \<and> list_all (\<lambda>c. c \<in> set ''0123456789'') k \<and> (k = ''0'' \<or> hd k \<noteq> CHR ''0'')
      then (let n = foldl (\<lambda>a c. 10 * a + digitValue c) 0 k
            in if n < 4294967295 then Some n else None)
      else None)"

text \<open>
  The assignment \<^verbatim>\<open>obj[k] = v\<close>: a key the object has keeps its place and gets the new
  value; a new array index goes among the array indices, in ascending order, in front
  of the other keys; any other new key goes to the end.
\<close>

fun replaceProp :: "(string \<times> jsval) list \<Rightarrow> string \<Rightarrow> jsval \<Rightarrow> (string \<times> jsval) list" where
  "replaceProp [] k v = []"
| "replaceProp ((k', v') # rest) k v =
     (if k' = k then (k, v) # rest else (k', v') # replaceProp rest k v)"

fun insertIndex :: "(string \<times> jsval) list \<Rightarrow> nat \<Rightarrow> string \<Rightarrow> jsval \<Rightarrow> (string \<times> jsval) list" where
  "insertIndex [] n k v = [(k, v)]"
| "insertIndex ((k', v') # rest) n k v =
     (case keyIndex k' of
        Some m \<Rightarrow> if m < n then (k', v') # insertIndex rest n k v else (k, v) # (k', v') # rest
      | None \<Rightarrow> (k, v) # (k', v') # rest)"

definition setProp :: "(string \<times> jsval) list \<Rightarrow> string \<Rightarrow> jsval \<Rightarrow> (string \<times> jsval) list" where
  "setProp obj k v =
     (if map_of obj k \<noteq> None then replaceProp obj k v
      else case keyIndex k of
             Some n \<Rightarrow> insertIndex obj n k v
           | None \<Rightarrow> obj @ [(k, v)])"

text \<open>\<^verbatim>\<open>Object.fromEntries(pairs)\<close>: one assignment for each pair, in the order of the pairs.\<close>

definition fromEntries :: "(string \<times> jsval) list \<Rightarrow> jsval" where
  "fromEntries pairs = JObj (foldl (\<lambda>obj (k, v). setProp obj k v) [] pairs)"

text \<open>
  The own properties of a value: the properties of an object; the elements and the
  \<^verbatim>\<open>length\<close> of an array; the code units and the \<^verbatim>\<open>length\<close> of a string. \<open>hasOwn\<close>
  tells whether the value has the own property, \<open>getProp\<close> reads it (\<^verbatim>\<open>undefined\<close>
  when there is none).
\<close>

definition indexed :: "'a list \<Rightarrow> (string \<times> 'a) list" where
  "indexed xs = zip (map showNat [0..<length xs]) xs"

fun getProp :: "jsval \<Rightarrow> string \<Rightarrow> jsval" where
  "getProp (JObj kvs) k = (case map_of kvs k of Some v \<Rightarrow> v | None \<Rightarrow> JUndefined)"
| "getProp (JArr xs) k =
     (if k = ''length'' then JNum (of_nat (length xs))
      else case map_of (indexed xs) k of Some v \<Rightarrow> v | None \<Rightarrow> JUndefined)"
| "getProp (JStr s) k =
     (if k = ''length'' then JNum (of_nat (length s))
      else case map_of (indexed s) k of Some c \<Rightarrow> JStr [c] | None \<Rightarrow> JUndefined)"
| "getProp v k = JUndefined"

fun hasOwn :: "jsval \<Rightarrow> string \<Rightarrow> bool" where
  "hasOwn (JObj kvs) k = (map_of kvs k \<noteq> None)"
| "hasOwn (JArr xs) k = (k = ''length'' \<or> map_of (indexed xs) k \<noteq> None)"
| "hasOwn (JStr s) k = (k = ''length'' \<or> map_of (indexed s) k \<noteq> None)"
| "hasOwn v k = False"

text \<open>\<^verbatim>\<open>s.slice(a, b)\<close> for indices \<open>0 \<le> a\<close>, \<open>0 \<le> b\<close>: the code units from \<open>a\<close> up to, not including, \<open>b\<close>.\<close>

definition slice :: "string \<Rightarrow> nat \<Rightarrow> nat \<Rightarrow> string" where
  "slice s a b = take (b - a) (drop a s)"

text \<open>White space as the regular expression class \<^verbatim>\<open>\s\<close> and \<^verbatim>\<open>trim()\<close> see it, below code unit 256.\<close>

definition isSpace :: "char \<Rightarrow> bool" where
  "isSpace c = (c \<in> set [CHR 0x09, CHR 0x0A, CHR 0x0B, CHR 0x0C, CHR 0x0D, CHR 0x20, CHR 0xA0])"

definition trim :: "string \<Rightarrow> string" where
  "trim s = rev (dropWhile isSpace (rev (dropWhile isSpace s)))"

text \<open>\<^verbatim>\<open>parts.join(sep)\<close>\<close>

fun join :: "string \<Rightarrow> string list \<Rightarrow> string" where
  "join sep [] = []"
| "join sep [x] = x"
| "join sep (x # y # rest) = x @ sep @ join sep (y # rest)"

section \<open>AnalyticsGenerator: serializer and chunker\<close>

definition maxChunkSize :: nat where
  "maxChunkSize = 25000"

text \<open>
  \<^verbatim>\<open>splitIntoChunks(text, size)\<close>: the loop \<^verbatim>\<open>for (let i = 0; i < text.length; i += size)\<close>
  pushes \<^verbatim>\<open>text.slice(i, i + size)\<close>. With \<open>size = 0\<close> and a non-empty text the loop
  never ends, so the loop is a partial function and not returning is \<open>None\<close>. The size
  is a character count, a natural number (written \<open>sz\<close>: \<open>size\<close> is taken in HOL).
\<close>

partial_function (option) chunkLoop :: "string \<Rightarrow> nat \<Rightarrow> nat \<Rightarrow> string list \<Rightarrow> string list option" where
  "chunkLoop text sz i chunks =
     (if i < length text
      then chunkLoop text sz (i + sz) (chunks @ [slice text i (i + sz)])
      else Some chunks)"

definition splitIntoChunks :: "string \<Rightarrow> nat \<Rightarrow> string list option" where
  "splitIntoChunks text sz = chunkLoop text sz 0 []"

text \<open>\<^verbatim>\<open>truncateData(data)\<close>\<close>

definition truncateData :: "string \<Rightarrow> string" where
  "truncateData data =
     (if length data > maxChunkSize then slice data 0 maxChunkSize @ ''...'' else data)"

text \<open>
  \<^verbatim>\<open>cleanData(data)\<close>: \<open>cleanLoop\<close> is the loop over \<^verbatim>\<open>Object.entries(data)\<close> that fills
  the fresh object \<^verbatim>\<open>cleaned\<close>.
\<close>

definition entriesWeight :: "(string \<times> jsval) list \<Rightarrow> nat" where
  "entriesWeight es = sum_list (map (\<lambda>e. Suc (size (snd e))) es)"

lemma entriesWeight_zip:
  "length ks = length xs \<Longrightarrow> entriesWeight (zip ks xs) = sum_list (map (\<lambda>v. Suc (size v)) xs)"
  by (induction ks xs rule: list_induct2) (simp_all add: entriesWeight_def)

lemma entriesWeight_objectEntries:
  "isObject d \<Longrightarrow> d \<noteq> JNull \<Longrightarrow> entriesWeight (objectEntries d) < size d"
proof (cases d)
  case (JArr xs)
  have "sum_list (map (\<lambda>v. Suc (size v)) xs) = size_list size xs"
    by (induction xs) simp_all
  with JArr show ?thesis by (simp add: entriesWeight_zip)
next
  case (JObj kvs)
  have "entriesWeight kvs \<le> size_list (size_prod (\<lambda>_. 0) size) kvs"
    by (induction kvs) (auto simp: entriesWeight_def)
  with JObj show ?thesis by simp
qed simp_all

function cleanData :: "jsval \<Rightarrow> jsval"
  and cleanLoop :: "(string \<times> jsval) list \<Rightarrow> (string \<times> jsval) list"
where
  "cleanData data =
     (if \<not> isObject data \<or> data = JNull then data
      else JObj (cleanLoop (objectEntries data)))"
| "cleanLoop [] = []"
| "cleanLoop ((key, v) # rest) =
     (if v \<noteq> JNull \<and> v \<noteq> JUndefined
      then (key, if isObject v then cleanData v else v) # cleanLoop rest
      else cleanLoop rest)"
  by pat_completeness auto
termination
  by (relation "measure (\<lambda>x. case x of Inl d \<Rightarrow> size d | Inr es \<Rightarrow> entriesWeight es)")
     (auto simp: entriesWeight_objectEntries, auto simp: entriesWeight_def)

section \<open>AnalyticsGenerator: reading the model's reply\<close>

text \<open>
  \<^verbatim>\<open>text.replace(/```json\n?|\n?```/g, '')\<close>: the text is scanned from the left; at each
  position the first alternative (the opening fence with its tag and an optional line
  break) is tried before the second (an optional line break and a bare fence); a match
  is removed and the scan goes on behind it.
\<close>

definition dropNewline :: "string \<Rightarrow> string" where
  "dropNewline r = (case r of [] \<Rightarrow> [] | c # r' \<Rightarrow> if c = CHR 0x0A then r' else r)"

lemma length_dropNewline: "length (dropNewline r) \<le> length r"
  by (simp add: dropNewline_def split: list.split)

function stripFences :: "string \<Rightarrow> string" where
  "stripFences [] = []"
| "stripFences (c # cs) =
     (if prefix ''```json'' (c # cs) then stripFences (dropNewline (drop 7 (c # cs)))
      else if prefix ''\<newline>```'' (c # cs) then stripFences (drop 4 (c # cs))
      else if prefix ''```'' (c # cs) then stripFences (drop 3 (c # cs))
      else c # stripFences cs)"
  by pat_completeness auto
termination
proof (relation "measure length")
  fix c :: char and cs :: string
  have "length (dropNewline (drop 7 (c # cs))) \<le> length (drop 7 (c # cs))"
    by (rule length_dropNewline)
  then show "(dropNewline (drop 7 (c # cs)), c # cs) \<in> measure length"
    by simp
qed simp_all

text \<open>
  \<^verbatim>\<open>.replace(/^[\s\n]*{/, '{')\<close>: white space in front of a leading brace is removed.
\<close>

definition trimBeforeBrace :: "string \<Rightarrow> string" where
  "trimBeforeBrace s =
     (case dropWhile isSpace s of
        [] \<Rightarrow> s
      | c # r \<Rightarrow> if c = CHR ''{'' then c # r else s)"

text \<open>
  \<^verbatim>\<open>.replace(/}[\s\n]*$/, '}')\<close>: white space behind a closing brace that ends the text is
  removed.
\<close>

definition trimAfterBrace :: "string \<Rightarrow> string" where
  "trimAfterBrace s =
     (case dropWhile isSpace (rev s) of
        [] \<Rightarrow> s
      | c # r \<Rightarrow> if c = CHR ''}'' then rev (c # r) else s)"

definition cleanText :: "string \<Rightarrow> string" where
  "cleanText text = trimAfterBrace (trimBeforeBrace (stripFences text))"

text \<open>The payload that the \<^verbatim>\<open>catch\<close> of \<^verbatim>\<open>safeParseResponse\<close> returns.\<close>

definition degradedPayload :: jsval where
  "degradedPayload =
     JObj [(''analysis'',
              JObj [(''default'',
                       JObj [(''summary'', JStr ''Analysis pending''),
                             (''key_points'', JArr []),
                             (''metrics'', JObj []),
                             (''recommendations'', JArr [])])]),
           (''overall_summary'', JStr ''Analysis pending''),
           (''confidence_score'', JNum 0)]"

text \<open>
  \<^verbatim>\<open>safeParseResponse(text)\<close>. \<^verbatim>\<open>JSON.parse\<close> belongs to the runtime, not to this
  repository: it is the parameter \<open>parse\<close>, and \<open>None\<close> stands for its
  \<^verbatim>\<open>SyntaxError\<close>. Both that error and the \<^verbatim>\<open>Invalid response structure\<close> error of
  the shape test end in the \<^verbatim>\<open>catch\<close>.
\<close>

definition safeParseResponse :: "(string \<Rightarrow> jsval option) \<Rightarrow> string \<Rightarrow> jsval" where
  "safeParseResponse parse text =
     (case parse (cleanText text) of
        None \<Rightarrow> degradedPayload
      | Some parsed \<Rightarrow>
          if \<not> truthy parsed \<or> \<not> isObject parsed then degradedPayload else parsed)"

section \<open>The external collaborators\<close>

text \<open>
  What the handler calls but does not define is a parameter of the embedding; the
  theorems about the handler are stated for every value of it.

  \<^item> The generative model: \<^verbatim>\<open>model.generateContent\<close> raced against the 10 second timer.
    A call answers with a reply text, raises, or does not settle before the timer.
    The answer may depend on the prompt and on all prompts sent before (the call log).
  \<^item> The 15 second timer of the deep tier: whether it settles the race before the
    grouped deep calls do.
  \<^item> \<^verbatim>\<open>JSON.stringify\<close>, \<^verbatim>\<open>JSON.parse\<close>, the clock, and the three decoders
    \<^verbatim>\<open>XLSX.read\<close> with \<^verbatim>\<open>sheet_to_json\<close>, \<^verbatim>\<open>csv-parse\<close> (after
    \<^verbatim>\<open>buffer.toString('utf-8')\<close>) and \<^verbatim>\<open>PDFDocument.load\<close>.
  \<^item> The built-in prototypes: \<open>inherited v k\<close> is what the read \<^verbatim>\<open>v[k]\<close> finds along
    the prototype chain of \<open>v\<close> when \<open>k\<close> is not an own property of \<open>v\<close>
    (\<^verbatim>\<open>undefined\<close> when the chain has no such member).
  \<^item> The event loop: the metrics of one tier are pending together, and which of
    them makes its next request is decided by when the earlier replies arrive.
    \<open>schedule sent ready\<close> is the position, in the metric list, of the metric that
    goes next, given the requests sent so far and the positions of the metrics that
    have a request to make.
\<close>

datatype reply = Reply string | Raises error | NoReply

type_synonym calls = "string list"

type_synonym model = "calls \<Rightarrow> string \<Rightarrow> reply"

record workbook =
  SheetNames :: "string list"
  sheetRows :: "string \<Rightarrow> jsval list"

datatype pdfOp = PdfOp (operator: string) (arg0: jsval)

datatype page = Page (getOperators: "error + pdfOp list")

record env =
  jsonStringify :: "jsval \<Rightarrow> string"
  jsonParse :: "string \<Rightarrow> jsval option"
  deepTimerFirst :: "calls \<Rightarrow> bool"
  isoNow :: "calls \<Rightarrow> string"
  getGenerativeModel :: model
  xlsxRead :: "string \<Rightarrow> error + workbook"
  csvParse :: "string \<Rightarrow> error + jsval list"
  pdfLoad :: "string \<Rightarrow> error + page list"
  inherited :: "jsval \<Rightarrow> string \<Rightarrow> jsval"
  schedule :: "calls \<Rightarrow> nat list \<Rightarrow> nat"

text \<open>
  The member read \<^verbatim>\<open>v[k]\<close> on a value other than \<^verbatim>\<open>null\<close> and \<^verbatim>\<open>undefined\<close>, and
  the optional chaining \<^verbatim>\<open>v?.[k]\<close>.
\<close>

definition readMember :: "env \<Rightarrow> jsval \<Rightarrow> string \<Rightarrow> jsval" where
  "readMember env v k = (if hasOwn v k then getProp v k else inherited env v k)"

definition optIndex :: "env \<Rightarrow> jsval \<Rightarrow> string \<Rightarrow> jsval" where
  "optIndex env v k = (if v = JNull \<or> v = JUndefined then JUndefined else readMember env v k)"

section \<open>FileProcessor\<close>

text \<open>\<^verbatim>\<open>filename.split('.')\<close>: never empty; a name without a dot is its own last part.\<close>

fun splitOn :: "char \<Rightarrow> string \<Rightarrow> string list" where
  "splitOn d [] = [[]]"
| "splitOn d (c # cs) =
     (if c = d then [] # splitOn d cs
      else (c # hd (splitOn d cs)) # tl (splitOn d cs))"

text \<open>
  \<^verbatim>\<open>toLowerCase()\<close> below code unit 256: the letters A to Z and the capital letters
  from \<open>0xC0\<close> to \<open>0xDE\<close> (without the multiplication sign \<open>0xD7\<close>) move up by
  \<open>0x20\<close>; every other code unit is kept.
\<close>

definition upperLetters :: string where
  "upperLetters =
     ''ABCDEFGHIJKLMNOPQRSTUVWXYZ'' @
     [CHR 0xC0, CHR 0xC1, CHR 0xC2, CHR 0xC3, CHR 0xC4, CHR 0xC5, CHR 0xC6, CHR 0xC7,
      CHR 0xC8, CHR 0xC9, CHR 0xCA, CHR 0xCB, CHR 0xCC, CHR 0xCD, CHR 0xCE, CHR 0xCF,
      CHR 0xD0, CHR 0xD1, CHR 0xD2, CHR 0xD3, CHR 0xD4, CHR 0xD5, CHR 0xD6,
      CHR 0xD8, CHR 0xD9, CHR 0xDA, CHR 0xDB, CHR 0xDC, CHR 0xDD, CHR 0xDE]"

definition lowerLetters :: string where
  "lowerLetters =
     ''abcdefghijklmnopqrstuvwxyz'' @
     [CHR 0xE0, CHR 0xE1, CHR 0xE2, CHR 0xE3, CHR 0xE4, CHR 0xE5, CHR 0xE6, CHR 0xE7,
      CHR 0xE8, CHR 0xE9, CHR 0xEA, CHR 0xEB, CHR 0xEC, CHR 0xED, CHR 0xEE, CHR 0xEF,
      CHR 0xF0, CHR 0xF1, CHR 0xF2, CHR 0xF3, CHR 0xF4, CHR 0xF5, CHR 0xF6,
      CHR 0xF8, CHR 0xF9, CHR 0xFA, CHR 0xFB, CHR 0xFC, CHR 0xFD, CHR 0xFE]"

definition toLowerChar :: "char \<Rightarrow> char" where
  "toLowerChar c =
     (case map_of (zip upperLetters lowerLetters) c of
        Some l \<Rightarrow> l
      | None \<Rightarrow> c)"

definition toLowerCase :: "string \<Rightarrow> string" where
  "toLowerCase s = map toLowerChar s"

text \<open>\<^verbatim>\<open>filename.split('.').pop()?.toLowerCase()\<close>\<close>

definition extensionOf :: "string \<Rightarrow> string" where
  "extensionOf filename = toLowerCase (last (splitOn (CHR ''.'') filename))"

definition processExcel :: "env \<Rightarrow> string \<Rightarrow> string \<Rightarrow> error + jsval" where
  "processExcel env buffer filename =
     (case xlsxRead env buffer of
        Inl e \<Rightarrow> Inl (Error (''Failed to process Excel file: '' @ message e))
      | Inr wb \<Rightarrow>
          Inr (JObj [(''type'', JStr ''excel''),
                     (''filename'', JStr filename),
                     (''sheets'', fromEntries (map (\<lambda>sheetName. (sheetName, JArr (sheetRows wb sheetName))) (SheetNames wb))),
                     (''sheetNames'', JArr (map JStr (SheetNames wb)))]))"

definition processCSV :: "env \<Rightarrow> string \<Rightarrow> string \<Rightarrow> error + jsval" where
  "processCSV env buffer filename =
     (case csvParse env buffer of
        Inl e \<Rightarrow> Inl (Error (''Failed to process CSV file: '' @ message e))
      | Inr records \<Rightarrow>
          Inr (JObj [(''type'', JStr ''csv''),
                     (''filename'', JStr filename),
                     (''data'', JArr records)]))"

text \<open>
  \<^verbatim>\<open>extractTextFromPage(page)\<close>: the string operands of the text-showing operators, joined
  by blanks; a raise while reading the operators gives the empty text.
\<close>

definition operandText :: "pdfOp \<Rightarrow> string list" where
  "operandText op =
     (if operator op = ''Tj'' \<or> operator op = ''TJ''
      then (case (case arg0 op of
                    JArr items \<Rightarrow> JStr (concat (map (\<lambda>item. case item of JStr t \<Rightarrow> t | _ \<Rightarrow> []) items))
                  | a \<Rightarrow> a) of
              JStr t \<Rightarrow> if t \<noteq> [] then [t] else []
            | _ \<Rightarrow> [])
      else [])"

definition extractTextFromPage :: "page \<Rightarrow> string" where
  "extractTextFromPage pg =
     (case getOperators pg of
        Inl e \<Rightarrow> []
      | Inr operators \<Rightarrow> join '' '' (concat (map operandText operators)))"

definition processPDF :: "env \<Rightarrow> string \<Rightarrow> string \<Rightarrow> error + jsval" where
  "processPDF env buffer filename =
     (case pdfLoad env buffer of
        Inl e \<Rightarrow> Inl (Error (''PDF processing failed: '' @ message e))
      | Inr pages \<Rightarrow>
          (let textContent = filter (\<lambda>t. trim t \<noteq> []) (map extractTextFromPage pages)
           in Inr (JObj [(''type'', JStr ''pdf''),
                         (''filename'', JStr filename),
                         (''content'', JStr (trim (join ''\<newline>'' textContent))),
                         (''pageCount'', JNum (of_nat (length pages))),
                         (''summary'', JStr (if length textContent > 0
                                             then ''Text extracted successfully''
                                             else ''No text content found''))])))"

text \<open>\<^verbatim>\<open>FileProcessor.processFile(filename, buffer)\<close>: the \<^verbatim>\<open>switch\<close> on the extension.\<close>

definition processFile :: "env \<Rightarrow> string \<Rightarrow> string \<Rightarrow> error + jsval" where
  "processFile env filename buffer =
     (let extension = extensionOf filename
      in if extension = ''xlsx'' \<or> extension = ''xls'' then processExcel env buffer filename
         else if extension = ''csv'' then processCSV env buffer filename
         else if extension = ''pdf'' then processPDF env buffer filename
         else Inl (Error (''Unsupported file type: '' @ extension)))"

section \<open>AnalyticsGenerator: the per-metric driver\<close>

text \<open>
  \<^verbatim>\<open>formatData(data)\<close> and \<^verbatim>\<open>processLargeData(data)\<close>. Nothing in the \<^verbatim>\<open>try\<close> of
  \<^verbatim>\<open>processLargeData\<close> raises here (the serializer is total and the chunk size is
  positive), so its \<^verbatim>\<open>catch\<close> has no counterpart. \<^verbatim>\<open>chunks[0]\<close> of an empty chunk
  list is \<^verbatim>\<open>undefined\<close>.
\<close>

definition formatData :: "env \<Rightarrow> jsval \<Rightarrow> string" where
  "formatData env data =
     (case data of
        JArr items \<Rightarrow> jsonStringify env (JArr (map cleanData items))
      | _ \<Rightarrow> jsonStringify env (cleanData data))"

definition processLargeData :: "env \<Rightarrow> jsval \<Rightarrow> jsval" where
  "processLargeData env data =
     (case splitIntoChunks (formatData env data) maxChunkSize of
        Some (chunk # chunks) \<Rightarrow> JStr chunk
      | _ \<Rightarrow> JUndefined)"

datatype tier = Primary | Deep

fun tierKey :: "tier \<Rightarrow> string" where
  "tierKey Primary = ''primary''"
| "tierKey Deep = ''deep''"

text \<open>\<^verbatim>\<open>buildPrompt(data, sectionKey, metrics)\<close>\<close>

definition buildPrompt :: "string \<Rightarrow> string \<Rightarrow> string list \<Rightarrow> string" where
  \<open>buildPrompt data sectionKey metrics =
     ''Analyze this '' @ sectionKey @
     '' data and provide insights. Return ONLY a JSON object without any markdown formatting or code blocks.\<newline>\<newline>Data: '' @
     data @ ''\<newline>\<newline>Required Metrics: '' @ join '', '' metrics @
     ''\<newline>\<newline>Response must be a valid JSON object with this exact structure (no additional formatting):\<newline>{\<newline>  "analysis": {\<newline>    "'' @
     (case metrics of [] \<Rightarrow> ''undefined'' | m # ms \<Rightarrow> m) @
     ''": {\<newline>      "summary": "detailed findings",\<newline>      "key_points": ["point 1", "point 2"],\<newline>      "metrics": {"metric1": "value1"},\<newline>      "recommendations": ["rec 1", "rec 2"]\<newline>    }\<newline>  },\<newline>  "overall_summary": "overview",\<newline>  "confidence_score": 0.95\<newline>}''\<close>

text \<open>\<^verbatim>\<open>getFallbackMetric(metric)\<close>\<close>

definition getFallbackMetric :: "string \<Rightarrow> jsval" where
  "getFallbackMetric metric =
     JObj [(''summary'', JStr (''Analysis pending for '' @ metric)),
           (''key_points'', JArr [JStr (''Unable to analyze '' @ metric)]),
           (''metrics'', JObj []),
           (''recommendations'', JArr [JStr (''Retry analysis for '' @ metric)])]"

text \<open>
  The body of the \<^verbatim>\<open>try\<close> in \<^verbatim>\<open>processMetric\<close>, once: \<open>Inl\<close> is the error it raises,
  \<open>Inr\<close> the value of \<^verbatim>\<open>result.analysis?.[metric]\<close>, which is \<open>metricEntry\<close>. Each request that reaches the model
  is appended to the call log; \<open>settle\<close> is the race of the call against the
  10 second timer. \<^verbatim>\<open>truncateData\<close> of \<^verbatim>\<open>undefined\<close> raises a \<^verbatim>\<open>TypeError\<close>
  before any request is made.
\<close>

definition metricEntry :: "env \<Rightarrow> jsval \<Rightarrow> string \<Rightarrow> jsval" where
  "metricEntry env result metric = optIndex env (readMember env result ''analysis'') metric"

fun settle :: "reply \<Rightarrow> error + string" where
  "settle (Reply text) = Inr text"
| "settle (Raises e) = Inl e"
| "settle NoReply = Inl (Error ''Generation timeout'')"

definition tryAttempt :: "env \<Rightarrow> model \<Rightarrow> jsval \<Rightarrow> string \<Rightarrow> tier \<Rightarrow> calls \<Rightarrow> calls \<times> (error + jsval)" where
  "tryAttempt env mdl data metric tp sent =
     (case processLargeData env data of
        JStr d \<Rightarrow>
          (let prompt = buildPrompt (truncateData d) (tierKey tp) [metric]
           in case settle (mdl sent prompt) of
                Inl e \<Rightarrow> (sent @ [prompt], Inl e)
              | Inr text \<Rightarrow>
                  (sent @ [prompt],
                   Inr (metricEntry env (safeParseResponse (jsonParse env) text) metric)))
      | _ \<Rightarrow> (sent, Inl (Error ''Cannot read properties of undefined (reading length)'')))"

text \<open>
  \<^verbatim>\<open>processMetric(metric, type, retries)\<close>: the loop
  \<^verbatim>\<open>for (let attempt = 0; attempt < retries; attempt++)\<close>. A raise on the last attempt is
  raised again; on an earlier one the loop goes on after the one-second pause. The
  fallback metric is returned when the loop ends without a return.
\<close>

function processMetricLoop ::
  "env \<Rightarrow> model \<Rightarrow> jsval \<Rightarrow> string \<Rightarrow> tier \<Rightarrow> nat \<Rightarrow> nat \<Rightarrow> calls \<Rightarrow> calls \<times> (error + jsval)" where
  "processMetricLoop env mdl data metric tp retries attempt sent =
     (if attempt < retries
      then (case tryAttempt env mdl data metric tp sent of
              (sent', Inr v) \<Rightarrow>
                if truthy v then (sent', Inr v)
                else processMetricLoop env mdl data metric tp retries (attempt + 1) sent'
            | (sent', Inl e) \<Rightarrow>
                if attempt = retries - 1 then (sent', Inl e)
                else processMetricLoop env mdl data metric tp retries (attempt + 1) sent')
      else (sent, Inr (getFallbackMetric metric)))"
  by pat_completeness auto
termination
  by (relation "measure (\<lambda>(env, mdl, data, metric, tp, retries, attempt, sent). retries - attempt)") auto

declare processMetricLoop.simps [simp del]

definition processMetric :: "env \<Rightarrow> model \<Rightarrow> jsval \<Rightarrow> string \<Rightarrow> tier \<Rightarrow> nat \<Rightarrow> calls \<Rightarrow> calls \<times> (error + jsval)" where
  "processMetric env mdl data metric tp retries sent =
     processMetricLoop env mdl data metric tp retries 0 sent"

text \<open>
  The prompt that every attempt for a metric sends when the serialized document is not
  empty: built from the first chunk, which \<^verbatim>\<open>truncateData\<close> leaves as it is.
\<close>

definition promptFor :: "env \<Rightarrow> jsval \<Rightarrow> tier \<Rightarrow> string \<Rightarrow> string" where
  "promptFor env data tp metric =
     buildPrompt (take maxChunkSize (formatData env data)) (tierKey tp) [metric]"

section \<open>AnalyticsGenerator: the section orchestrator\<close>

record analysisSection =
  title :: string
  primary :: "string list"
  deep :: "string list"

text \<open>
  The fan-out \<^verbatim>\<open>metrics.map(metric => this.processMetric(metric, type, retries))\<close>: the
  metrics of the tier are pending together, and every one of them runs to its own end,
  whatever the others do (a rejected sibling cancels nothing). Each metric is either
  in its loop, about to make the attempt with the given index, or settled with its
  result or its error.
\<close>

datatype progress = Running nat | Settled "error + jsval"

text \<open>
  One pass of a metric through the body of the loop of \<^verbatim>\<open>processMetric\<close>, at the index
  \<open>attempt\<close>: it returns, raises, or goes on to the next index.
\<close>

definition resume ::
  "env \<Rightarrow> model \<Rightarrow> jsval \<Rightarrow> string \<Rightarrow> tier \<Rightarrow> nat \<Rightarrow> nat \<Rightarrow> calls \<Rightarrow> calls \<times> progress" where
  "resume env mdl data metric tp retries attempt sent =
     (case tryAttempt env mdl data metric tp sent of
        (sent', Inr v) \<Rightarrow>
          (sent', if truthy v then Settled (Inr v) else Running (attempt + 1))
      | (sent', Inl e) \<Rightarrow>
          (sent', if attempt = retries - 1 then Settled (Inl e) else Running (attempt + 1)))"

text \<open>
  The metrics that have a request to make: those in the loop at an index below
  \<open>retries\<close>. A metric in the loop at an index that is not below \<open>retries\<close> has left
  the loop and returns the fallback metric.
\<close>

definition ready :: "nat \<Rightarrow> (string \<times> progress) list \<Rightarrow> nat list" where
  "ready retries tasks =
     filter (\<lambda>i. case snd (tasks ! i) of Running attempt \<Rightarrow> attempt < retries | Settled r \<Rightarrow> False)
       [0..<length tasks]"

fun resultOf :: "string \<Rightarrow> progress \<Rightarrow> error + jsval" where
  "resultOf metric (Settled r) = r"
| "resultOf metric (Running attempt) = Inr (getFallbackMetric metric)"

text \<open>
  Whose turn it is. The first requests of all metrics go out in the order of the metric
  list, before any reply is looked at: \<^verbatim>\<open>map\<close> starts the metrics in that order and each
  runs up to its first request. After that the event loop decides; a choice that is not
  one of the ready metrics is read as the first of them.
\<close>

definition nextTurn :: "env \<Rightarrow> nat \<Rightarrow> (string \<times> progress) list \<Rightarrow> calls \<Rightarrow> nat option" where
  "nextTurn env retries tasks sent =
     (let rdy = ready retries tasks;
          fresh = filter (\<lambda>i. snd (tasks ! i) = Running 0) rdy
      in if rdy = [] then None
         else if fresh \<noteq> [] then Some (hd fresh)
         else if schedule env sent rdy \<in> set rdy then Some (schedule env sent rdy)
         else Some (hd rdy))"

definition weight :: "nat \<Rightarrow> string \<times> progress \<Rightarrow> nat" where
  "weight retries task = (case snd task of Running attempt \<Rightarrow> retries - attempt | Settled r \<Rightarrow> 0)"

lemma hd_filter_mem: "filter P xs \<noteq> [] \<Longrightarrow> hd (filter P xs) \<in> set xs"
  by (metis filter_is_subset hd_in_set subsetD)

lemma nextTurn_ready: "nextTurn env retries tasks sent = Some i \<Longrightarrow> i \<in> set (ready retries tasks)"
  unfolding nextTurn_def Let_def
  by (auto split: if_splits dest: hd_filter_mem)

lemma ready_running:
  "i \<in> set (ready retries tasks) \<Longrightarrow> i < length tasks \<and> (\<exists>attempt. snd (tasks ! i) = Running attempt \<and> attempt < retries)"
  by (auto simp: ready_def split: progress.splits)

lemma weight_resume:
  assumes "attempt < retries" and "resume env mdl data metric tp retries attempt sent = (sent', p)"
  shows "weight retries (metric, p) < retries - attempt"
proof -
  obtain s r where t: "tryAttempt env mdl data metric tp sent = (s, r)"
    by (cases "tryAttempt env mdl data metric tp sent")
  show ?thesis
  proof (cases r)
    case (Inl e)
    with t assms show ?thesis by (auto simp: resume_def weight_def split: if_splits)
  next
    case (Inr v)
    with t assms show ?thesis by (auto simp: resume_def weight_def split: if_splits)
  qed
qed

lemma sum_weight_update:
  assumes "i < length tasks" and "weight retries task < weight retries (tasks ! i)"
  shows "sum_list (map (weight retries) (tasks[i := task])) < sum_list (map (weight retries) tasks)"
proof -
  have "map (weight retries) tasks ! i \<in> set (map (weight retries) tasks)"
    using assms(1) by (intro nth_mem) simp
  then have "map (weight retries) tasks ! i \<le> sum_list (map (weight retries) tasks)"
    by (intro member_le_sum_list) simp_all
  then have le: "weight retries (tasks ! i) \<le> sum_list (map (weight retries) tasks)"
    using assms(1) by simp
  have "sum_list ((map (weight retries) tasks)[i := weight retries task]) =
      sum_list (map (weight retries) tasks) + weight retries task - map (weight retries) tasks ! i"
    using assms(1) by (intro sum_list_update) simp
  then have "sum_list (map (weight retries) (tasks[i := task])) =
      sum_list (map (weight retries) tasks) + weight retries task - weight retries (tasks ! i)"
    using assms(1) by (simp add: map_update)
  with le assms(2) show ?thesis by arith
qed

text \<open>
  The tier runs until no metric has a request to make: the metric whose turn it is makes
  one pass through its loop body. The run goes on to the end of every metric also when
  one of them has raised: the requests that the others still make are logged with
  their tier, although the caller of a rejected or timed-out tier does not wait for
  them.
\<close>

function runTasks ::
  "env \<Rightarrow> model \<Rightarrow> jsval \<Rightarrow> tier \<Rightarrow> nat \<Rightarrow> (string \<times> progress) list \<Rightarrow> calls
     \<Rightarrow> calls \<times> (string \<times> progress) list" where
  "runTasks env mdl data tp retries tasks sent =
     (case nextTurn env retries tasks sent of
        None \<Rightarrow> (sent, tasks)
      | Some i \<Rightarrow>
          (case tasks ! i of
             (metric, Running attempt) \<Rightarrow>
               (case resume env mdl data metric tp retries attempt sent of
                  (sent', p) \<Rightarrow> runTasks env mdl data tp retries (tasks[i := (metric, p)]) sent')
           | (metric, Settled r) \<Rightarrow> (sent, tasks)))"
  by pat_completeness auto
termination
proof (relation "measure (\<lambda>(env, mdl, data, tp, retries, tasks, sent). sum_list (map (weight retries) tasks))", goal_cases)
  case 1
  show ?case by simp
next
  case (2 env mdl data tp retries tasks sent i metric pr attempt sent' p)
  from 2(2,3) have task: "snd (tasks ! i) = Running attempt"
    by (metis snd_conv)
  from ready_running[OF nextTurn_ready[OF 2(1)]] task
  have i: "i < length tasks" and a: "attempt < retries"
    by auto
  from 2(4) have "resume env mdl data metric tp retries attempt sent = (sent', p)" by simp
  from weight_resume[OF a this] have "weight retries (metric, p) < retries - attempt" .
  also have "retries - attempt = weight retries (tasks ! i)"
    using task by (simp add: weight_def)
  finally have "sum_list (map (weight retries) (tasks[i := (metric, p)])) < sum_list (map (weight retries) tasks)"
    by (rule sum_weight_update[OF i])
  then show ?case by simp
qed

declare runTasks.simps [simp del]

definition runMetrics ::
  "env \<Rightarrow> model \<Rightarrow> jsval \<Rightarrow> tier \<Rightarrow> nat \<Rightarrow> string list \<Rightarrow> calls \<Rightarrow> calls \<times> (string \<times> (error + jsval)) list" where
  "runMetrics env mdl data tp retries metrics sent =
     (case runTasks env mdl data tp retries (map (\<lambda>metric. (metric, Running 0)) metrics) sent of
        (sent', tasks) \<Rightarrow> (sent', map (\<lambda>(metric, p). (metric, resultOf metric p)) tasks))"

text \<open>
  \<^verbatim>\<open>Promise.all\<close> over the pairs \<^verbatim>\<open>[metric, result]\<close>: fulfilled with all pairs when every
  metric is fulfilled, rejected as soon as one is rejected.
\<close>

fun promiseAll :: "(string \<times> (error + jsval)) list \<Rightarrow> error + (string \<times> jsval) list" where
  "promiseAll [] = Inr []"
| "promiseAll ((metric, Inl e) # rs) = Inl e"
| "promiseAll ((metric, Inr v) # rs) =
     (case promiseAll rs of Inl e \<Rightarrow> Inl e | Inr vs \<Rightarrow> Inr ((metric, v) # vs))"

text \<open>\<^verbatim>\<open>getFallbackResponse(section)\<close>\<close>

definition getFallbackResponse :: "analysisSection \<Rightarrow> jsval" where
  "getFallbackResponse sec =
     JObj [(''primary'',
              fromEntries (map (\<lambda>key. (key, JStr (''Analysis pending for '' @ key))) (primary sec))),
           (''deep_metrics'',
              fromEntries (map (\<lambda>key. (key, JStr (''Deep analysis pending for '' @ key))) (deep sec)))]"

text \<open>
  \<^verbatim>\<open>generateAnalytics(data, section, filename)\<close>. The field \<^verbatim>\<open>this.model\<close> is \<open>None\<close> until
  \<^verbatim>\<open>setModel\<close> is called. The value of the first \<^verbatim>\<open>processLargeData(data)\<close> call is not
  used and the file name is not read. \<open>analyticsBody\<close> is the \<^verbatim>\<open>try\<close> block: the primary tier is
  awaited first; the deep tier is started after it, when the deep list is not empty,
  and raced against the 15 second timer. \<open>generateAnalytics\<close> adds the \<^verbatim>\<open>catch\<close>.
\<close>

definition deepFallback :: "analysisSection \<Rightarrow> (string \<times> jsval) list" where
  "deepFallback sec = map (\<lambda>metric. (metric, getFallbackMetric metric)) (deep sec)"

definition deepTier :: "env \<Rightarrow> model \<Rightarrow> jsval \<Rightarrow> analysisSection \<Rightarrow> calls \<Rightarrow> calls \<times> (string \<times> jsval) list" where
  "deepTier env mdl data sec sent =
     (if deep sec \<noteq> []
      then (case runMetrics env mdl data Deep 1 (deep sec) sent of
              (sent', rs) \<Rightarrow>
                (sent',
                 if deepTimerFirst env sent' then deepFallback sec
                 else (case promiseAll rs of
                         Inl e \<Rightarrow> deepFallback sec
                       | Inr deepResults \<Rightarrow> deepResults)))
      else (sent, []))"

definition analyticsBody :: "env \<Rightarrow> model option \<Rightarrow> jsval \<Rightarrow> analysisSection \<Rightarrow> calls \<Rightarrow> calls \<times> (error + jsval)" where
  "analyticsBody env this_model data sec sent =
     (case this_model of
        None \<Rightarrow> (sent, Inl (Error ''Model not initialized. Call setModel() first.''))
      | Some mdl \<Rightarrow>
          (case runMetrics env mdl data Primary 2 (primary sec) sent of
             (sent1, rs) \<Rightarrow>
               (case promiseAll rs of
                  Inl e \<Rightarrow> (sent1, Inl e)
                | Inr primaryResults \<Rightarrow>
                    (case deepTier env mdl data sec sent1 of
                       (sent2, deepResults) \<Rightarrow>
                         (sent2, Inr (JObj [(''primary'', fromEntries primaryResults),
                                           (''deep'', fromEntries deepResults)]))))))"

definition generateAnalytics :: "env \<Rightarrow> model option \<Rightarrow> jsval \<Rightarrow> analysisSection \<Rightarrow> calls \<Rightarrow> calls \<times> jsval" where
  "generateAnalytics env this_model data sec sent =
     (case analyticsBody env this_model data sec sent of
        (sent', Inr outcome) \<Rightarrow> (sent', outcome)
      | (sent', Inl e) \<Rightarrow> (sent', getFallbackResponse sec))"

section \<open>The batch handler\<close>

record upload =
  name :: string
  fileSize :: nat
  bytes :: string

datatype response = Response (status: nat) (body: jsval)

text \<open>The section that \<^verbatim>\<open>processRequest\<close> builds for every file.\<close>

definition fileSection :: analysisSection where
  "fileSection =
     \<lparr>title = ''File Analysis'',
      primary = [''Data Overview'', ''Key Metrics''],
      deep = [''Statistical Analysis'', ''Data Distribution'']\<rparr>"

text \<open>
  The loop \<^verbatim>\<open>for (const file of files)\<close> of \<^verbatim>\<open>processRequest\<close> with its
  \<^verbatim>\<open>try\<close>/\<^verbatim>\<open>catch\<close>: \<open>results\<close> and \<open>errors\<close> are the two arrays, \<open>sent\<close> the prompts sent
  to the model so far.
\<close>

definition resultEntry :: "env \<Rightarrow> upload \<Rightarrow> jsval \<Rightarrow> jsval \<Rightarrow> calls \<Rightarrow> jsval" where
  "resultEntry env file processedData analytics sent =
     JObj [(''filename'', JStr (name file)),
           (''processedData'', processedData),
           (''analytics'', analytics),
           (''timestamp'', JStr (isoNow env sent))]"

definition errorEntry :: "upload \<Rightarrow> error \<Rightarrow> jsval" where
  "errorEntry file e =
     JObj [(''filename'', JStr (name file)),
           (''error'', JStr (message e))]"

fun processFiles :: "env \<Rightarrow> upload list \<Rightarrow> jsval list \<Rightarrow> jsval list \<Rightarrow> calls \<Rightarrow> calls \<times> jsval list \<times> jsval list" where
  "processFiles env [] results errors sent = (sent, results, errors)"
| "processFiles env (file # files) results errors sent =
     (case processFile env (name file) (bytes file) of
        Inl e \<Rightarrow> processFiles env files results (errors @ [errorEntry file e]) sent
      | Inr processedData \<Rightarrow>
          (case generateAnalytics env (Some (getGenerativeModel env)) processedData fileSection sent of
             (sent', analytics) \<Rightarrow>
               processFiles env files
                 (results @ [resultEntry env file processedData analytics sent']) errors sent'))"

definition maxFileSize :: nat where
  "maxFileSize = 50 * 1024 * 1024"

definition processRequest :: "env \<Rightarrow> upload list \<Rightarrow> calls \<Rightarrow> calls \<times> response" where
  "processRequest env files sent =
     (if files = [] then
        (sent, Response 400 (JObj [(''success'', JBool False), (''error'', JStr ''No files provided'')]))
      else if list_ex (\<lambda>file. fileSize file > maxFileSize) files then
        (sent, Response 400 (JObj [(''success'', JBool False), (''error'', JStr ''File size exceeds 50MB limit'')]))
      else
        (case processFiles env files [] [] sent of
           (sent', results, errors) \<Rightarrow>
             (sent', Response 200
                (JObj [(''success'', JBool True),
                       (''results'', JArr results),
                       (''errors'', JArr errors),
                       (''totalFiles'', JNum (of_nat (length files))),
                       (''successfulFiles'', JNum (of_nat (length results))),
                       (''failedFiles'', JNum (of_nat (length errors))),
                       (''timestamp'', JStr (isoNow env sent'))]))))"

section \<open>Sample collaborators\<close>

text \<open>
  Concrete stand-ins for the external collaborators, used where a theorem is run on an
  example: a reply text with the value \<^verbatim>\<open>JSON.parse\<close> gives for it, and a parser that
  knows this one text and rejects every other.
\<close>

definition goodReply :: string where
  \<open>goodReply = ''{"analysis":{"Data Overview":{"summary":"ok"},"Key Metrics":{"summary":"ok"},"Statistical Analysis":{"summary":"ok"},"Data Distribution":{"summary":"ok"}}}''\<close>

definition goodValue :: jsval where
  "goodValue =
     JObj [(''analysis'',
            JObj [(''Data Overview'', JObj [(''summary'', JStr ''ok'')]),
                  (''Key Metrics'', JObj [(''summary'', JStr ''ok'')]),
                  (''Statistical Analysis'', JObj [(''summary'', JStr ''ok'')]),
                  (''Data Distribution'', JObj [(''summary'', JStr ''ok'')])])]"

definition sampleParse :: "string \<Rightarrow> jsval option" where
  "sampleParse t = (if t = goodReply then Some goodValue else None)"

text \<open>
  A serializer that renders every document as \<^verbatim>\<open>{}\<close>; a model that is down; a model
  that answers the first \<open>n\<close> requests with the sample reply and raises afterwards; a
  model that raises on the first \<open>n\<close> requests and answers with the sample reply
  afterwards; a
  delimited-text decoder that fails on the content \<^verbatim>\<open>a,b\<close> followed by \<^verbatim>\<open>1\<close> on the
  next line, and reads one row otherwise; a workbook decoder that reads one sheet with
  one row; a page-document decoder that reads a document without pages; the function
  members that every value inherits from \<^verbatim>\<open>Object.prototype\<close>; an event loop in which
  the first metric that has a request to make goes next.
\<close>

definition sampleStringify :: "jsval \<Rightarrow> string" where
  "sampleStringify v = ''{}''"

definition failingModel :: model where
  "failingModel sent prompt = Raises (Error ''503 Service Unavailable'')"

definition flakyModel :: "nat \<Rightarrow> model" where
  "flakyModel n sent prompt =
     (if length sent < n then Reply goodReply else Raises (Error ''429 Too Many Requests''))"

definition coldModel :: "nat \<Rightarrow> model" where
  "coldModel n sent prompt =
     (if length sent < n then Raises (Error ''503 Service Unavailable'') else Reply goodReply)"

definition sampleCsv :: "string \<Rightarrow> error + jsval list" where
  "sampleCsv content =
     (if content = ''a,b\<newline>1'' then Inl (Error ''Invalid Record Length'')
      else Inr [JObj [(''line'', JStr content)]])"

definition sampleInherited :: "jsval \<Rightarrow> string \<Rightarrow> jsval" where
  "sampleInherited v k =
     (if k \<in> set [''constructor'', ''hasOwnProperty'', ''isPrototypeOf'', ''propertyIsEnumerable'',
                   ''toLocaleString'', ''toString'', ''valueOf'']
      then JFunction k else JUndefined)"

definition sampleEnv :: env where
  "sampleEnv =
     \<lparr>jsonStringify = sampleStringify,
      jsonParse = sampleParse,
      deepTimerFirst = (\<lambda>sent. False),
      isoNow = (\<lambda>sent. ''2024-01-01T00:00:00.000Z''),
      getGenerativeModel = failingModel,
      xlsxRead = (\<lambda>buffer. Inr \<lparr>SheetNames = [''Sheet1''], sheetRows = (\<lambda>sheetName. [JObj [(''A'', JStr buffer)]])\<rparr>),
      csvParse = sampleCsv,
      pdfLoad = (\<lambda>buffer. Inr []),
      inherited = sampleInherited,
      schedule = (\<lambda>sent ready. hd ready)\<rparr>"

definition sampleDoc :: jsval where
  "sampleDoc =
     JObj [(''type'', JStr ''csv''), (''filename'', JStr ''a.csv''),
           (''data'', JArr [JObj [(''name'', JStr ''x''), (''age'', JNull)]])]"

text \<open>The value the sample reply holds for each of the four metric names.\<close>

definition okMetric :: jsval where
  "okMetric = JObj [(''summary'', JStr ''ok'')]"

text \<open>Three uploads; the second one does not decode.\<close>

definition sampleBatch :: "upload list" where
  "sampleBatch =
     [\<lparr>name = ''a.csv'', fileSize = 3, bytes = ''x,y''\<rparr>,
      \<lparr>name = ''b.csv'', fileSize = 5, bytes = ''a,b\<newline>1''\<rparr>,
      \<lparr>name = ''scan.Pdf'', fileSize = 4, bytes = ''%PDF''\<rparr>]"

section \<open>Properties\<close>


subsection \<open>Property order\<close>

lemma map_of_replaceProp:
  "map_of obj k \<noteq> None \<Longrightarrow> map_of (replaceProp obj k v) = (map_of obj)(k \<mapsto> v)"
  by (induction obj) (auto simp: fun_eq_iff)

lemma map_of_insertIndex:
  "map_of obj k = None \<Longrightarrow> map_of (insertIndex obj n k v) = (map_of obj)(k \<mapsto> v)"
proof (induction obj)
  case Nil
  then show ?case by simp
next
  case (Cons p obj)
  obtain k' v' where p: "p = (k', v')" by (cases p)
  from Cons.prems p have k: "k' \<noteq> k" and rest: "map_of obj k = None"
    by (auto split: if_splits)
  from Cons.IH[OF rest] k show ?case
    by (auto simp: p fun_eq_iff split: option.splits)
qed

lemma map_of_setProp: "map_of (setProp obj k v) = (map_of obj)(k \<mapsto> v)"
proof (cases "map_of obj k = None")
  case False
  then show ?thesis by (simp add: setProp_def map_of_replaceProp)
next
  case True
  then show ?thesis
    by (auto simp: setProp_def map_of_insertIndex fun_eq_iff map_add_def split: option.splits)
qed

text \<open>A new key that is not an array index goes to the end.\<close>

lemma setProp_new_name:
  "map_of obj k = None \<Longrightarrow> keyIndex k = None \<Longrightarrow> setProp obj k v = obj @ [(k, v)]"
  by (simp add: setProp_def)

lemma keyIndex_letter: "c \<notin> set ''0123456789'' \<Longrightarrow> keyIndex (c # cs) = None"
  by (simp add: keyIndex_def)

lemma map_of_foldl_setProp:
  "map_of (foldl (\<lambda>obj (k, v). setProp obj k v) acc pairs) k =
     (case map_of (rev pairs) k of Some v \<Rightarrow> Some v | None \<Rightarrow> map_of acc k)"
proof (induction pairs arbitrary: acc)
  case Nil
  then show ?case by simp
next
  case (Cons p pairs)
  obtain k' v' where p: "p = (k', v')" by (cases p)
  show ?case
    by (simp add: p Cons map_of_setProp map_of_append map_add_def split: option.split)
qed

lemma getProp_fromEntries:
  "getProp (fromEntries pairs) k = (case map_of (rev pairs) k of Some v \<Rightarrow> v | None \<Rightarrow> JUndefined)"
  by (simp add: fromEntries_def map_of_foldl_setProp split: option.split)

lemma getProp_fromEntries_truthy:
  assumes "k \<in> fst ` set pairs" "\<forall>(k', v) \<in> set pairs. truthy v"
  shows "truthy (getProp (fromEntries pairs) k)"
proof -
  from assms(1) have "k \<in> fst ` set (rev pairs)" by simp
  then obtain v where v: "map_of (rev pairs) k = Some v"
    by (metis domD dom_map_of_conv_image_fst)
  then have "(k, v) \<in> set pairs" using map_of_SomeD by fastforce
  with assms(2) v show ?thesis by (auto simp: getProp_fromEntries)
qed

text \<open>Pairs with distinct keys, none of them an array index, become the object that lists them.\<close>

lemma foldl_setProp_plain:
  "distinct (map fst (acc @ pairs)) \<Longrightarrow> list_all (\<lambda>k. keyIndex k = None) (map fst pairs)
     \<Longrightarrow> foldl (\<lambda>obj (k, v). setProp obj k v) acc pairs = acc @ pairs"
proof (induction pairs arbitrary: acc)
  case Nil
  then show ?case by simp
next
  case (Cons p pairs)
  obtain k v where p: "p = (k, v)" by (cases p)
  from Cons.prems p have "map_of acc k = None" "keyIndex k = None"
    by (auto simp: map_of_eq_None_iff)
  then have "setProp acc k v = acc @ [(k, v)]" by (rule setProp_new_name)
  with Cons.IH[of "acc @ [(k, v)]"] Cons.prems p show ?case by simp
qed

lemma fromEntries_plain:
  "distinct (map fst pairs) \<Longrightarrow> list_all (\<lambda>k. keyIndex k = None) (map fst pairs)
     \<Longrightarrow> fromEntries pairs = JObj pairs"
  using foldl_setProp_plain[of "[]" pairs] by (simp add: fromEntries_def)

text \<open>Array indices are listed first and in ascending order, whatever the order of the pairs.\<close>

lemma fromEntries_years:
  "fromEntries [(''Sheet'', x), (''2024'', y), (''2023'', z)] =
     JObj [(''2023'', z), (''2024'', y), (''Sheet'', x)]"
  by (simp add: fromEntries_def setProp_def keyIndex_def digitValue_def Let_def)

subsection \<open>Chunking is a lossless partition\<close>

lemma ceil_div_nat:
  fixes l n :: nat
  assumes "0 < n"
  shows "\<lceil>real l / real n\<rceil> = int ((l + n - 1) div n)"
proof -
  let ?k = "(l + n - 1) div n"
  have up: "?k * n \<le> l + n - 1" by simp
  have "l + n - 1 < ?k * n + n"
    using assms dividend_less_div_times[of n "l + n - 1"] by (simp add: ac_simps)
  then have lo: "l \<le> ?k * n" using assms by arith
  from up assms have up': "?k * n < l + n" by arith
  have "real l \<le> real (?k * n)" using lo by (simp only: of_nat_le_iff)
  then have a: "real l / real n \<le> real ?k"
    using assms by (simp add: divide_le_eq)
  have "real (?k * n) < real (l + n)" using up' by (simp only: of_nat_less_iff)
  then have b: "real ?k - 1 < real l / real n"
    using assms by (simp add: less_divide_eq algebra_simps)
  show ?thesis
    by (rule ceiling_unique) (use a b in simp_all)
qed

lemma chunk_count_step:
  fixes d n :: nat
  assumes "0 < n" "0 < d"
  shows "(d + n - 1) div n = Suc ((d - n + n - 1) div n)"
proof (cases "n \<le> d")
  case True
  define a where "a = d - n + n - 1"
  from True have "d + n - 1 = a + n" using assms by (simp add: a_def)
  then have "(d + n - 1) div n = Suc (a div n)" using assms by simp
  then show ?thesis by (simp only: a_def)
next
  case False
  then have z: "(d - n + n - 1) div n = 0" using assms by simp
  define a where "a = d - 1"
  from False assms have "d + n - 1 = a + n" "a < n" by (simp_all add: a_def)
  then have "(d + n - 1) div n = Suc 0" using assms by simp
  then show ?thesis using z by simp
qed

text \<open>
  The loop started at index \<open>i\<close> with the chunks \<open>acc\<close> returns, and what it appends
  partitions the rest of the text from \<open>i\<close> on.
\<close>

lemma chunkLoop_spec:
  assumes "0 < n"
  shows "\<exists>cs. chunkLoop text n i acc = Some (acc @ cs)
           \<and> length cs = (length text - i + n - 1) div n
           \<and> (\<forall>c\<in>set cs. length c \<le> n)
           \<and> concat cs = drop i text"
proof (induction "length text - i" arbitrary: i acc rule: less_induct)
  case less
  show ?case
  proof (cases "i < length text")
    case False
    then have "chunkLoop text n i acc = Some acc"
      by (subst chunkLoop.simps) simp
    moreover from False assms have "(length text - i + n - 1) div n = 0" by simp
    ultimately show ?thesis using False by simp
  next
    case True
    let ?c = "slice text i (i + n)"
    from True assms have "length text - (i + n) < length text - i" by arith
    from less[OF this, of "acc @ [?c]"]
    obtain cs where cs:
      "chunkLoop text n (i + n) (acc @ [?c]) = Some ((acc @ [?c]) @ cs)"
      "length cs = (length text - (i + n) + n - 1) div n"
      "\<forall>c\<in>set cs. length c \<le> n"
      "concat cs = drop (i + n) text" by blast
    have step: "chunkLoop text n i acc = chunkLoop text n (i + n) (acc @ [?c])"
      using True by (subst chunkLoop.simps) simp
    have len: "(length text - i + n - 1) div n = Suc ((length text - (i + n) + n - 1) div n)"
      using chunk_count_step[OF assms, of "length text - i"] True
      by (simp only: diff_diff_left zero_less_diff)
    have cat: "?c @ drop (i + n) text = drop i text"
      by (simp add: slice_def add.commute[of i n] flip: drop_drop)
    have "chunkLoop text n i acc = Some (acc @ (?c # cs))" using step cs(1) by simp
    moreover have "length (?c # cs) = (length text - i + n - 1) div n" using cs(2) len by simp
    moreover have "\<forall>c\<in>set (?c # cs). length c \<le> n" using cs(3) by (simp add: slice_def)
    moreover have "concat (?c # cs) = drop i text" using cs(4) cat by simp
    ultimately show ?thesis by blast
  qed
qed

text \<open>
  Claim C4. For every text of length \<open>L\<close> and every chunk size \<open>n > 0\<close>,
  \<open>splitIntoChunks\<close> returns; it returns exactly \<open>\<lceil>L / n\<rceil>\<close> chunks, every chunk has
  at most \<open>n\<close> characters, and the chunks concatenated in order are the text.
\<close>

theorem splitIntoChunks_partition:
  assumes "0 < n"
  shows "\<exists>cs. splitIntoChunks text n = Some cs
           \<and> int (length cs) = \<lceil>real (length text) / real n\<rceil>
           \<and> (\<forall>c\<in>set cs. length c \<le> n)
           \<and> concat cs = text"
proof -
  from chunkLoop_spec[OF assms, of "text" 0 "[]"]
  obtain cs where cs: "chunkLoop text n 0 [] = Some cs"
    "length cs = (length text + n - 1) div n"
    "\<forall>c\<in>set cs. length c \<le> n" "concat cs = text"
    by auto
  from cs(2) have "int (length cs) = \<lceil>real (length text) / real n\<rceil>"
    by (simp only: ceil_div_nat[OF assms])
  with cs show ?thesis by (auto simp: splitIntoChunks_def)
qed

theorem splitIntoChunks_partition_witness:
  "(0::nat) < 3 \<and> splitIntoChunks ''abcdefg'' 3 = Some [''abc'', ''def'', ''g'']
     \<and> (\<exists>cs. splitIntoChunks ''abcdefg'' 3 = Some cs
           \<and> int (length cs) = \<lceil>real (length ''abcdefg'') / real (3::nat)\<rceil>
           \<and> list_all (\<lambda>c. length c \<le> 3) cs
           \<and> concat cs = ''abcdefg'')"
proof -
  have pos: "(0::nat) < 3" by simp
  have run: "splitIntoChunks ''abcdefg'' 3 = Some [''abc'', ''def'', ''g'']"
    by (simp add: splitIntoChunks_def chunkLoop.simps slice_def)
  from splitIntoChunks_partition[OF pos, of "''abcdefg''"] pos run
  show ?thesis by (auto simp: list_all_iff)
qed

subsection \<open>The safety cap of truncateData\<close>

text \<open>
  Claim C5, as amended. A text longer than \<open>maxChunkSize\<close> is cut to its first
  \<open>maxChunkSize\<close> characters and the three-character marker \<^verbatim>\<open>...\<close> is appended, so
  the result has at most \<open>maxChunkSize + 3 = 25003\<close> characters; a text within the
  bound is returned as it is.
\<close>

theorem truncateData_bound:
  "length (truncateData d) \<le> maxChunkSize + 3
     \<and> truncateData d = (if length d \<le> maxChunkSize then d else take maxChunkSize d @ ''...'')"
  by (simp add: truncateData_def slice_def)

text \<open>A text of 25001 characters comes back with 25003 characters, above the bound of 25000.\<close>

theorem truncateData_exceeds_maxChunkSize:
  "\<not> length (truncateData (replicate 25001 (CHR ''a''))) \<le> maxChunkSize"
  by (simp add: truncateData_def slice_def maxChunkSize_def)

subsection \<open>What cleanData does to arrays\<close>

lemma cleanData_scalar: "\<not> isObject v \<Longrightarrow> cleanData v = v"
  by simp

lemma cleanData_array_is_object:
  "cleanData (JArr xs) = JObj (cleanLoop (zip (map showNat [0..<length xs]) xs))"
  by simp

text \<open>Only the array that \<^verbatim>\<open>formatData\<close> itself receives is mapped element by element.\<close>

lemma formatData_array:
  "formatData env (JArr items) = jsonStringify env (JArr (map cleanData items))"
  by (simp add: formatData_def)

lemma cleanLoop_no_null: "(k, v) \<in> set (cleanLoop es) \<Longrightarrow> v \<noteq> JNull \<and> v \<noteq> JUndefined"
proof (induction es)
  case Nil
  then show ?case by simp
next
  case (Cons e es)
  obtain k' v' where e: "e = (k', v')" by (cases e)
  show ?case
  proof (cases "v' \<noteq> JNull \<and> v' \<noteq> JUndefined")
    case False
    with Cons e show ?thesis by auto
  next
    case True
    have "cleanData v' \<noteq> JNull \<and> cleanData v' \<noteq> JUndefined"
      using True by (cases v') simp_all
    with Cons e True show ?thesis by (auto split: if_splits)
  qed
qed

text \<open>
  Claim C6, at a parsed delimited-text document with one row: the row sequence under
  \<^verbatim>\<open>data\<close> does not come back as an array of cleaned rows but as an object keyed by
  the index \<^verbatim>\<open>"0"\<close>. The \<^verbatim>\<open>null\<close> field of the row is removed and the strings are
  unchanged, as the claim says.
\<close>

theorem cleanData_nested_array:
  "cleanData (JObj [(''type'', JStr ''csv''), (''filename'', JStr ''a.csv''),
                    (''data'', JArr [JObj [(''name'', JStr ''x''), (''age'', JNull)]])])
   = JObj [(''type'', JStr ''csv''), (''filename'', JStr ''a.csv''),
           (''data'', JObj [(''0'', JObj [(''name'', JStr ''x'')])])]"
  by (simp add: showNat.simps digitChar_def)

subsection \<open>Fenced replies and rejected replies\<close>

text \<open>
  A closing fence behind a text changes nothing in what the fence removal leaves: no
  match of the pattern can begin inside the text and end inside the fence, because the
  fence begins with a line break and neither alternative has a line break behind its
  first character.
\<close>

lemma no_new_match:
  assumes "xs \<noteq> []" "CHR 0x0A \<notin> set (tl p)" "\<not> prefix p xs"
  shows "\<not> prefix p (xs @ ''\<newline>```'')"
proof
  assume "prefix p (xs @ ''\<newline>```'')"
  then obtain us where us: "p = xs @ us" "prefix us ''\<newline>```''"
    using assms(3) by (auto simp: prefix_append)
  from us(1) assms(3) have "us \<noteq> []" by auto
  then obtain u us' where u: "us = u # us'" by (cases us) auto
  with us(2) have "u = CHR 0x0A" by simp
  with us(1) u assms(1) have "CHR 0x0A \<in> set (tl p)" by (cases xs) auto
  with assms(2) show False by contradiction
qed

lemma prefix_drop_append:
  "prefix p xs \<Longrightarrow> length p = n \<Longrightarrow> drop n (xs @ ys) = drop n xs @ ys"
  by (auto simp: prefix_def)

lemma stripFences_tagged:
  assumes "prefix ''```json'' w"
  shows "stripFences w = stripFences (dropNewline (drop 7 w))"
proof (cases w)
  case Nil
  with assms show ?thesis by simp
next
  case (Cons c cs)
  from assms show ?thesis unfolding Cons by (simp only: stripFences.simps(2) if_True)
qed

lemma stripFences_closing:
  assumes "\<not> prefix ''```json'' w" "prefix ''\<newline>```'' w"
  shows "stripFences w = stripFences (drop 4 w)"
proof (cases w)
  case Nil
  with assms show ?thesis by simp
next
  case (Cons c cs)
  from assms show ?thesis unfolding Cons by (simp only: stripFences.simps(2) if_True if_False)
qed

lemma stripFences_bare:
  assumes "\<not> prefix ''```json'' w" "\<not> prefix ''\<newline>```'' w" "prefix ''```'' w"
  shows "stripFences w = stripFences (drop 3 w)"
proof (cases w)
  case Nil
  with assms show ?thesis by simp
next
  case (Cons c cs)
  from assms show ?thesis unfolding Cons by (simp only: stripFences.simps(2) if_True if_False)
qed

lemma stripFences_keep:
  assumes "\<not> prefix ''```json'' (c # cs)" "\<not> prefix ''\<newline>```'' (c # cs)" "\<not> prefix ''```'' (c # cs)"
  shows "stripFences (c # cs) = c # stripFences cs"
  using assms by (simp only: stripFences.simps(2) if_False)

lemma stripFences_closing_fence:
  "stripFences (t @ ''\<newline>```'') = stripFences t"
proof (induction t rule: stripFences.induct)
  case 1
  show ?case by simp
next
  case (2 c cs)
  let ?suf = "''\<newline>```''"
  let ?w = "c # cs"
  consider (tagged) "prefix ''```json'' ?w"
    | (closing) "\<not> prefix ''```json'' ?w" "prefix ''\<newline>```'' ?w"
    | (bare) "\<not> prefix ''```json'' ?w" "\<not> prefix ''\<newline>```'' ?w" "prefix ''```'' ?w"
    | (keep) "\<not> prefix ''```json'' ?w" "\<not> prefix ''\<newline>```'' ?w" "\<not> prefix ''```'' ?w"
    by blast
  then show ?case
  proof cases
    case tagged
    then have p: "prefix ''```json'' (?w @ ?suf)" by (rule prefix_prefix)
    have d: "drop 7 (?w @ ?suf) = drop 7 ?w @ ?suf"
      by (rule prefix_drop_append[OF tagged]) simp
    have l: "stripFences (?w @ ?suf) = stripFences (dropNewline (drop 7 ?w @ ?suf))"
      using stripFences_tagged[OF p] by (simp only: d)
    have r: "stripFences ?w = stripFences (dropNewline (drop 7 ?w))"
      by (rule stripFences_tagged[OF tagged])
    show ?thesis
    proof (cases "drop 7 ?w")
      case Nil
      then show ?thesis unfolding l r by (simp add: dropNewline_def)
    next
      case (Cons x r')
      then have "dropNewline (drop 7 ?w @ ?suf) = dropNewline (drop 7 ?w) @ ?suf"
        by (simp add: dropNewline_def)
      then show ?thesis unfolding l r using "2.IH"(1)[OF tagged] by (simp only:)
    qed
  next
    case closing
    then have p: "prefix ''\<newline>```'' (?w @ ?suf)" by (simp only: prefix_prefix)
    have np: "\<not> prefix ''```json'' (?w @ ?suf)"
      by (rule no_new_match[OF _ _ closing(1)]) simp_all
    have d: "drop 4 (?w @ ?suf) = drop 4 ?w @ ?suf"
      by (rule prefix_drop_append[OF closing(2)]) simp
    have l: "stripFences (?w @ ?suf) = stripFences (drop 4 ?w @ ?suf)"
      using stripFences_closing[OF np p] by (simp only: d)
    have r: "stripFences ?w = stripFences (drop 4 ?w)"
      by (rule stripFences_closing[OF closing])
    show ?thesis unfolding l r using "2.IH"(2)[OF closing] .
  next
    case bare
    then have p: "prefix ''```'' (?w @ ?suf)" by (simp only: prefix_prefix)
    have np1: "\<not> prefix ''```json'' (?w @ ?suf)"
      by (rule no_new_match[OF _ _ bare(1)]) simp_all
    have np2: "\<not> prefix ''\<newline>```'' (?w @ ?suf)"
      by (rule no_new_match[OF _ _ bare(2)]) simp_all
    have d: "drop 3 (?w @ ?suf) = drop 3 ?w @ ?suf"
      by (rule prefix_drop_append[OF bare(3)]) simp
    have l: "stripFences (?w @ ?suf) = stripFences (drop 3 ?w @ ?suf)"
      using stripFences_bare[OF np1 np2 p] by (simp only: d)
    have r: "stripFences ?w = stripFences (drop 3 ?w)"
      by (rule stripFences_bare[OF bare])
    show ?thesis unfolding l r using "2.IH"(3)[OF bare] .
  next
    case keep
    have np1: "\<not> prefix ''```json'' (?w @ ?suf)"
      by (rule no_new_match[OF _ _ keep(1)]) simp_all
    have np2: "\<not> prefix ''\<newline>```'' (?w @ ?suf)"
      by (rule no_new_match[OF _ _ keep(2)]) simp_all
    have np3: "\<not> prefix ''```'' (?w @ ?suf)"
      by (rule no_new_match[OF _ _ keep(3)]) simp_all
    have "stripFences (c # (cs @ ?suf)) = c # stripFences (cs @ ?suf)"
      using np1 np2 np3 unfolding append_Cons by (rule stripFences_keep)
    then have l: "stripFences (?w @ ?suf) = c # stripFences (cs @ ?suf)"
      by (simp only: append_Cons)
    have r: "stripFences ?w = c # stripFences cs"
      by (rule stripFences_keep[OF keep])
    show ?thesis unfolding l r using "2.IH"(4)[OF keep] by (simp only:)
  qed
qed

lemma stripFences_opening_fence:
  "stripFences (''```json\<newline>'' @ u) = stripFences u"
  by (simp add: dropNewline_def)

lemma stripFences_fenced:
  "stripFences (''```json\<newline>'' @ t @ ''\<newline>```'') = stripFences t"
  by (simp only: stripFences_opening_fence stripFences_closing_fence)


lemma safeParseResponse_rejected:
  "parse (cleanText reply) = None \<Longrightarrow> safeParseResponse parse reply = degradedPayload"
  by (simp add: safeParseResponse_def)

lemma cleanText_fenced:
  "cleanText (''```json\<newline>'' @ reply @ ''\<newline>```'') = cleanText reply"
  unfolding cleanText_def by (simp only: stripFences_fenced)

text \<open>A text without a backquote is left alone by the fence removal.\<close>

lemma stripFences_plain: "CHR 0x60 \<notin> set t \<Longrightarrow> stripFences t = t"
proof (induction t rule: stripFences.induct)
  case 1
  show ?case by simp
next
  case (2 c cs)
  from "2.prems" have c: "c \<noteq> CHR 0x60" and cs: "CHR 0x60 \<notin> set cs" by auto
  have n1: "\<not> prefix ''```json'' (c # cs)" using c by auto
  have n3: "\<not> prefix ''```'' (c # cs)" using c by auto
  have n2: "\<not> prefix ''\<newline>```'' (c # cs)"
  proof
    assume "prefix ''\<newline>```'' (c # cs)"
    then have "prefix ''```'' cs" by simp
    then have "CHR 0x60 \<in> set cs" by (auto simp: prefix_def)
    with cs show False by contradiction
  qed
  from stripFences_keep[OF n1 n2 n3] "2.IH"(4)[OF n1 n2 n3 cs] show ?case by simp
qed

lemma stripFences_goodReply: "stripFences goodReply = goodReply"
  unfolding goodReply_def by simp

lemma cleanText_goodReply: "cleanText goodReply = goodReply"
  unfolding cleanText_def stripFences_goodReply
  by (simp add: goodReply_def trimBeforeBrace_def trimAfterBrace_def isSpace_def)

lemma safeParseResponse_goodReply: "safeParseResponse sampleParse goodReply = goodValue"
  unfolding safeParseResponse_def cleanText_goodReply
  by (simp add: sampleParse_def goodValue_def)





lemma stripFences_brace: "stripFences (CHR ''{'' # rest) = CHR ''{'' # stripFences rest"
  by simp








lemma safeParseResponse_not_object:
  "parse (cleanText reply) = Some v \<Longrightarrow> \<not> truthy v \<or> \<not> isObject v
     \<Longrightarrow> safeParseResponse parse reply = degradedPayload"
  by (auto simp: safeParseResponse_def)

text \<open>
  The fenced form of a reply without a backquote is read to the object that
  \<^verbatim>\<open>JSON.parse\<close> gives for the reply.
\<close>

lemma safeParseResponse_fenced_object:
  assumes "CHR 0x60 \<notin> set reply"
    and "parse (trimAfterBrace (trimBeforeBrace reply)) = Some (JObj kvs)"
  shows "safeParseResponse parse (''```json\<newline>'' @ reply @ ''\<newline>```'') = JObj kvs"
proof -
  have "cleanText (''```json\<newline>'' @ reply @ ''\<newline>```'') = trimAfterBrace (trimBeforeBrace reply)"
    unfolding cleanText_fenced by (simp add: cleanText_def stripFences_plain[OF assms(1)])
  with assms(2) show ?thesis
    unfolding safeParseResponse_def by simp
qed

subsection \<open>The driver when the model is down\<close>

lemma splitIntoChunks_first:
  assumes "0 < n" "text \<noteq> []"
  shows "\<exists>cs. splitIntoChunks text n = Some (take n text # cs)"
proof -
  have "chunkLoop text n 0 [] = chunkLoop text n (0 + n) ([] @ [slice text 0 (0 + n)])"
    using assms(2) by (subst chunkLoop.simps) simp
  moreover obtain cs where "chunkLoop text n (0 + n) ([] @ [slice text 0 (0 + n)]) = Some (([] @ [slice text 0 (0 + n)]) @ cs)"
    using chunkLoop_spec[OF assms(1)] by blast
  ultimately show ?thesis by (simp add: splitIntoChunks_def slice_def)
qed

lemma splitIntoChunks_empty: "splitIntoChunks [] n = Some []"
  by (simp add: splitIntoChunks_def chunkLoop.simps)

lemma processLargeData_eq:
  "processLargeData env data =
     (if formatData env data = [] then JUndefined else JStr (take maxChunkSize (formatData env data)))"
proof (cases "formatData env data = []")
  case True
  then show ?thesis by (simp add: processLargeData_def splitIntoChunks_empty)
next
  case False
  have "0 < maxChunkSize" by (simp add: maxChunkSize_def)
  from splitIntoChunks_first[OF this False] False show ?thesis
    by (auto simp: processLargeData_def)
qed

lemma truncateData_chunk: "truncateData (take maxChunkSize t) = take maxChunkSize t"
  by (simp add: truncateData_def)

lemma tryAttempt_eq:
  assumes "formatData env data \<noteq> []"
  shows "tryAttempt env mdl data metric tp sent =
     (sent @ [promptFor env data tp metric],
      case settle (mdl sent (promptFor env data tp metric)) of
        Inl e \<Rightarrow> Inl e
      | Inr text \<Rightarrow> Inr (metricEntry env (safeParseResponse (jsonParse env) text) metric))"
  using assms
  by (simp add: tryAttempt_def processLargeData_eq truncateData_chunk promptFor_def Let_def split: sum.split)

lemma processMetricLoop_all_raise:
  assumes fmt: "formatData env data \<noteq> []"
    and down: "\<forall>sent p. isl (settle (mdl sent p))"
  shows "attempt < retries \<Longrightarrow>
     processMetricLoop env mdl data metric tp retries attempt sent =
       (sent @ replicate (retries - attempt) (promptFor env data tp metric),
        Inl (projl (settle (mdl (sent @ replicate (retries - attempt - 1) (promptFor env data tp metric))
                                (promptFor env data tp metric)))))"
proof (induction "retries - attempt" arbitrary: attempt sent)
  case 0
  then show ?case by simp
next
  case (Suc k)
  let ?p = "promptFor env data tp metric"
  from down obtain e where e: "settle (mdl sent ?p) = Inl e" by (meson isl_def)
  have t: "tryAttempt env mdl data metric tp sent = (sent @ [?p], Inl e)"
    by (simp add: tryAttempt_eq[OF fmt] e)
  show ?case
  proof (cases "attempt = retries - 1")
    case True
    with Suc.prems have "retries - attempt = 1" by arith
    with True Suc.prems t e show ?thesis
      by (subst processMetricLoop.simps) simp
  next
    case False
    with Suc.prems have lt: "attempt + 1 < retries" by arith
    from Suc.hyps(2) have k: "k = retries - (attempt + 1)" by arith
    have step: "processMetricLoop env mdl data metric tp retries attempt sent =
          processMetricLoop env mdl data metric tp retries (attempt + 1) (sent @ [?p])"
      using Suc.prems False t by (subst processMetricLoop.simps) simp
    have r: "replicate (retries - attempt) ?p = ?p # replicate (retries - (attempt + 1)) ?p"
      using Suc.prems by (metis Suc.hyps(2) k replicate_Suc)
    have r': "replicate (retries - attempt - 1) ?p = ?p # replicate (retries - (attempt + 1) - 1) ?p"
      using lt by (metis Suc_diff_Suc Suc_eq_plus1 diff_diff_left replicate_Suc zero_less_diff less_imp_diff_less diff_Suc_1 k Suc.hyps(2))
    show ?thesis
      unfolding step Suc.hyps(1)[OF k lt] r r' by simp
  qed
qed

lemma processMetric_zero_retries:
  "processMetric env mdl data metric tp 0 sent = (sent, Inr (getFallbackMetric metric))"
  unfolding processMetric_def by (subst processMetricLoop.simps) simp

text \<open>
  Claim C1, as amended. When the serialized document is not empty and every call to the
  model raises or runs into the 10 second timer, \<open>processMetric\<close> with
  \<open>retries > 0\<close> sends exactly \<open>retries\<close> requests and then raises the error of the
  last one to its caller; it does not return the fallback metric.
\<close>

theorem processMetric_service_down:
  assumes "formatData env data \<noteq> []"
    and "\<forall>sent p. isl (settle (mdl sent p))"
    and "0 < retries"
  shows "\<exists>e. processMetric env mdl data metric tp retries sent =
              (sent @ replicate retries (promptFor env data tp metric), Inl e)
           \<and> settle (mdl (sent @ replicate (retries - 1) (promptFor env data tp metric))
                          (promptFor env data tp metric)) = Inl e"
proof -
  let ?last = "settle (mdl (sent @ replicate (retries - 1) (promptFor env data tp metric))
                          (promptFor env data tp metric))"
  from assms(2) obtain e where e: "?last = Inl e" by (meson isl_def)
  from processMetricLoop_all_raise[OF assms(1,2), of 0 retries metric tp sent] assms(3) e
  have "processMetric env mdl data metric tp retries sent =
          (sent @ replicate retries (promptFor env data tp metric), Inl e)"
    by (simp add: processMetric_def)
  with e show ?thesis by blast
qed

lemma formatData_sample: "formatData sampleEnv sampleDoc = ''{}''"
  by (simp add: formatData_def sampleEnv_def sampleStringify_def sampleDoc_def)

lemma promptFor_sample: "promptFor sampleEnv sampleDoc tp metric = buildPrompt ''{}'' (tierKey tp) [metric]"
  by (simp add: promptFor_def formatData_sample maxChunkSize_def)

lemma settle_failingModel: "settle (failingModel sent p) = Inl (Error ''503 Service Unavailable'')"
  by (simp add: failingModel_def)

lemma failingModel_down: "\<forall>sent p. isl (settle (failingModel sent p))"
  by (simp add: settle_failingModel)

theorem processMetric_service_down_witness:
  "formatData sampleEnv sampleDoc \<noteq> []
   \<and> (\<forall>sent p. isl (settle (failingModel sent p)))
   \<and> (0::nat) < 2
   \<and> processMetric sampleEnv failingModel sampleDoc ''Key Metrics'' Primary 2 [] =
        ([buildPrompt ''{}'' ''primary'' [''Key Metrics''], buildPrompt ''{}'' ''primary'' [''Key Metrics'']],
         Inl (Error ''503 Service Unavailable''))"
proof -
  have a: "formatData sampleEnv sampleDoc \<noteq> []" by (simp add: formatData_sample)
  have c: "(0::nat) < 2" by simp
  from processMetric_service_down[OF a failingModel_down c, of "''Key Metrics''" Primary "[]"]
  have "processMetric sampleEnv failingModel sampleDoc ''Key Metrics'' Primary 2 [] =
        ([buildPrompt ''{}'' ''primary'' [''Key Metrics''], buildPrompt ''{}'' ''primary'' [''Key Metrics'']],
         Inl (Error ''503 Service Unavailable''))"
    by (auto simp: promptFor_sample settle_failingModel numeral_2_eq_2)
  with a c failingModel_down show ?thesis by blast
qed

text \<open>
  With the model down, the single attempt of a deep metric ends in a raise, and the two
  attempts of a primary metric do not end in the return of the fallback metric.
\<close>

theorem processMetric_raises_when_down:
  "processMetric sampleEnv failingModel sampleDoc ''Statistical Analysis'' Deep 1 [] =
     ([buildPrompt ''{}'' ''deep'' [''Statistical Analysis'']], Inl (Error ''503 Service Unavailable''))
   \<and> processMetric sampleEnv failingModel sampleDoc ''Key Metrics'' Primary 2 [] \<noteq>
        ([buildPrompt ''{}'' ''primary'' [''Key Metrics''], buildPrompt ''{}'' ''primary'' [''Key Metrics'']],
         Inr (getFallbackMetric ''Key Metrics''))"
proof -
  have a: "formatData sampleEnv sampleDoc \<noteq> []" by (simp add: formatData_sample)
  have "processMetric sampleEnv failingModel sampleDoc ''Statistical Analysis'' Deep 1 [] =
     ([buildPrompt ''{}'' ''deep'' [''Statistical Analysis'']], Inl (Error ''503 Service Unavailable''))"
    using processMetricLoop_all_raise[OF a failingModel_down, of 0 1 "''Statistical Analysis''" Deep "[]"]
    by (simp add: processMetric_def promptFor_sample settle_failingModel)
  moreover have "isl (snd (processMetric sampleEnv failingModel sampleDoc ''Key Metrics'' Primary 2 []))"
    using processMetricLoop_all_raise[OF a failingModel_down, of 0 2 "''Key Metrics''" Primary "[]"]
    by (simp add: processMetric_def)
  ultimately show ?thesis by auto
qed

subsection \<open>Dispatch on the extension\<close>

lemma processExcel_cases:
  "(case xlsxRead env buffer of
      Inl e \<Rightarrow> processExcel env buffer filename = Inl (Error (''Failed to process Excel file: '' @ message e))
    | Inr wb \<Rightarrow> \<exists>doc. processExcel env buffer filename = Inr doc
                    \<and> getProp doc ''type'' = JStr ''excel'' \<and> getProp doc ''filename'' = JStr filename)"
  by (simp add: processExcel_def split: sum.split)

lemma processCSV_cases:
  "(case csvParse env buffer of
      Inl e \<Rightarrow> processCSV env buffer filename = Inl (Error (''Failed to process CSV file: '' @ message e))
    | Inr records \<Rightarrow> \<exists>doc. processCSV env buffer filename = Inr doc
                    \<and> getProp doc ''type'' = JStr ''csv'' \<and> getProp doc ''filename'' = JStr filename)"
  by (simp add: processCSV_def split: sum.split)

lemma processPDF_cases:
  "(case pdfLoad env buffer of
      Inl e \<Rightarrow> processPDF env buffer filename = Inl (Error (''PDF processing failed: '' @ message e))
    | Inr pages \<Rightarrow> \<exists>doc. processPDF env buffer filename = Inr doc
                    \<and> getProp doc ''type'' = JStr ''pdf'' \<and> getProp doc ''filename'' = JStr filename)"
  by (simp add: processPDF_def Let_def split: sum.split)

text \<open>
  Claim C8. The extension is the lower-cased part of the file name behind its last dot
  (the whole name when it has no dot).
  For \<^verbatim>\<open>xlsx\<close> and \<^verbatim>\<open>xls\<close>, for \<^verbatim>\<open>csv\<close> and for \<^verbatim>\<open>pdf\<close>, \<open>processFile\<close> is the
  matching parser: when the decoder reads the buffer the result is the document tagged
  \<^verbatim>\<open>excel\<close>, \<^verbatim>\<open>csv\<close> or \<^verbatim>\<open>pdf\<close>, and when the decoder raises, the result is that
  parser's failure. For every other extension the result is the error
  \<^verbatim>\<open>Unsupported file type\<close>, and no parser is tried.
\<close>

theorem processFile_dispatch:
  "(extensionOf filename \<in> {''xlsx'', ''xls''} \<longrightarrow>
      processFile env filename buffer = processExcel env buffer filename
      \<and> (case xlsxRead env buffer of
            Inl e \<Rightarrow> processFile env filename buffer = Inl (Error (''Failed to process Excel file: '' @ message e))
          | Inr wb \<Rightarrow> \<exists>doc. processFile env filename buffer = Inr doc \<and> getProp doc ''type'' = JStr ''excel''))
   \<and> (extensionOf filename = ''csv'' \<longrightarrow>
      processFile env filename buffer = processCSV env buffer filename
      \<and> (case csvParse env buffer of
            Inl e \<Rightarrow> processFile env filename buffer = Inl (Error (''Failed to process CSV file: '' @ message e))
          | Inr records \<Rightarrow> \<exists>doc. processFile env filename buffer = Inr doc \<and> getProp doc ''type'' = JStr ''csv''))
   \<and> (extensionOf filename = ''pdf'' \<longrightarrow>
      processFile env filename buffer = processPDF env buffer filename
      \<and> (case pdfLoad env buffer of
            Inl e \<Rightarrow> processFile env filename buffer = Inl (Error (''PDF processing failed: '' @ message e))
          | Inr pages \<Rightarrow> \<exists>doc. processFile env filename buffer = Inr doc \<and> getProp doc ''type'' = JStr ''pdf''))
   \<and> (extensionOf filename \<notin> {''xlsx'', ''xls'', ''csv'', ''pdf''} \<longrightarrow>
      processFile env filename buffer = Inl (Error (''Unsupported file type: '' @ extensionOf filename)))"
proof -
  have x: "extensionOf filename \<in> {''xlsx'', ''xls''} \<Longrightarrow> processFile env filename buffer = processExcel env buffer filename"
    by (auto simp: processFile_def)
  have c: "extensionOf filename = ''csv'' \<Longrightarrow> processFile env filename buffer = processCSV env buffer filename"
    by (simp add: processFile_def)
  have p: "extensionOf filename = ''pdf'' \<Longrightarrow> processFile env filename buffer = processPDF env buffer filename"
    by (simp add: processFile_def)
  have u: "extensionOf filename \<notin> {''xlsx'', ''xls'', ''csv'', ''pdf''} \<Longrightarrow>
      processFile env filename buffer = Inl (Error (''Unsupported file type: '' @ extensionOf filename))"
    by (simp add: processFile_def)
  show ?thesis
    using x c p u processExcel_cases[of env buffer filename]
      processCSV_cases[of env buffer filename] processPDF_cases[of env buffer filename]
    by (auto split: sum.splits)
qed

lemma extensionOf_examples:
  "extensionOf ''Report.Q3.XLSX'' = ''xlsx''" "extensionOf ''a.csv'' = ''csv''"
  "extensionOf ''scan.Pdf'' = ''pdf''" "extensionOf ''notes.txt'' = ''txt''" "extensionOf ''b.csv'' = ''csv''"
  "extensionOf ''old.xls'' = ''xls''"
  by (simp_all add: extensionOf_def toLowerCase_def toLowerChar_def upperLetters_def lowerLetters_def)

theorem processFile_dispatch_witness:
  "extensionOf ''Report.Q3.XLSX'' \<in> {''xlsx'', ''xls''}
   \<and> processFile sampleEnv ''Report.Q3.XLSX'' ''PK'' =
        Inr (JObj [(''type'', JStr ''excel''), (''filename'', JStr ''Report.Q3.XLSX''),
                   (''sheets'', JObj [(''Sheet1'', JArr [JObj [(''A'', JStr ''PK'')]])]),
                   (''sheetNames'', JArr [JStr ''Sheet1''])])
   \<and> extensionOf ''a.csv'' = ''csv''
   \<and> processFile sampleEnv ''a.csv'' ''x,y'' =
        Inr (JObj [(''type'', JStr ''csv''), (''filename'', JStr ''a.csv''),
                   (''data'', JArr [JObj [(''line'', JStr ''x,y'')]])])
   \<and> extensionOf ''scan.Pdf'' = ''pdf''
   \<and> processFile sampleEnv ''scan.Pdf'' ''%PDF'' =
        Inr (JObj [(''type'', JStr ''pdf''), (''filename'', JStr ''scan.Pdf''),
                   (''content'', JStr []), (''pageCount'', JNum 0),
                   (''summary'', JStr ''No text content found'')])
   \<and> extensionOf ''notes.txt'' \<notin> {''xlsx'', ''xls'', ''csv'', ''pdf''}
   \<and> processFile sampleEnv ''notes.txt'' ''hello'' = Inl (Error ''Unsupported file type: txt'')"
proof -
  have x: "processExcel sampleEnv ''PK'' ''Report.Q3.XLSX'' =
        Inr (JObj [(''type'', JStr ''excel''), (''filename'', JStr ''Report.Q3.XLSX''),
                   (''sheets'', JObj [(''Sheet1'', JArr [JObj [(''A'', JStr ''PK'')]])]),
                   (''sheetNames'', JArr [JStr ''Sheet1''])])"
    by (simp add: processExcel_def sampleEnv_def fromEntries_plain keyIndex_letter)
  have c: "processCSV sampleEnv ''x,y'' ''a.csv'' =
        Inr (JObj [(''type'', JStr ''csv''), (''filename'', JStr ''a.csv''),
                   (''data'', JArr [JObj [(''line'', JStr ''x,y'')]])])"
    by (simp add: processCSV_def sampleEnv_def sampleCsv_def)
  have p: "processPDF sampleEnv ''%PDF'' ''scan.Pdf'' =
        Inr (JObj [(''type'', JStr ''pdf''), (''filename'', JStr ''scan.Pdf''),
                   (''content'', JStr []), (''pageCount'', JNum 0),
                   (''summary'', JStr ''No text content found'')])"
    by (simp add: processPDF_def sampleEnv_def trim_def)
  show ?thesis
    using processFile_dispatch[of "''Report.Q3.XLSX''" sampleEnv "''PK''"]
      processFile_dispatch[of "''a.csv''" sampleEnv "''x,y''"]
      processFile_dispatch[of "''scan.Pdf''" sampleEnv "''%PDF''"]
      processFile_dispatch[of "''notes.txt''" sampleEnv "''hello''"]
    by (simp add: extensionOf_examples x c p)
qed

subsection \<open>One entry per file\<close>

lemma processFiles_partition:
  "\<exists>sent' rs es. processFiles env files results errors sent = (sent', results @ rs, errors @ es)
     \<and> map (\<lambda>r. getProp r ''filename'') rs
         = map (\<lambda>f. JStr (name f)) (filter (\<lambda>f. \<not> isl (processFile env (name f) (bytes f))) files)
     \<and> map (\<lambda>r. getProp r ''filename'') es
         = map (\<lambda>f. JStr (name f)) (filter (\<lambda>f. isl (processFile env (name f) (bytes f))) files)"
proof (induction files arbitrary: results errors sent)
  case Nil
  then show ?case by simp
next
  case (Cons f0 fs)
  show ?case
  proof (cases "processFile env (name f0) (bytes f0)")
    case (Inl e)
    from Cons[of results "errors @ [errorEntry f0 e]" sent]
    obtain sent' rs es where
      "processFiles env fs results (errors @ [errorEntry f0 e]) sent = (sent', results @ rs, (errors @ [errorEntry f0 e]) @ es)"
      "map (\<lambda>r. getProp r ''filename'') rs
         = map (\<lambda>f. JStr (name f)) (filter (\<lambda>f. \<not> isl (processFile env (name f) (bytes f))) fs)"
      "map (\<lambda>r. getProp r ''filename'') es
         = map (\<lambda>f. JStr (name f)) (filter (\<lambda>f. isl (processFile env (name f) (bytes f))) fs)"
      by blast
    with Inl show ?thesis
      by (intro exI[of _ sent'] exI[of _ rs] exI[of _ "errorEntry f0 e # es"])
         (simp add: errorEntry_def)
  next
    case (Inr doc)
    obtain sent1 analytics where g:
      "generateAnalytics env (Some (getGenerativeModel env)) doc fileSection sent = (sent1, analytics)"
      by (cases "generateAnalytics env (Some (getGenerativeModel env)) doc fileSection sent")
    let ?entry = "resultEntry env f0 doc analytics sent1"
    from Cons[of "results @ [?entry]" errors sent1]
    obtain sent' rs es where
      "processFiles env fs (results @ [?entry]) errors sent1 = (sent', (results @ [?entry]) @ rs, errors @ es)"
      "map (\<lambda>r. getProp r ''filename'') rs
         = map (\<lambda>f. JStr (name f)) (filter (\<lambda>f. \<not> isl (processFile env (name f) (bytes f))) fs)"
      "map (\<lambda>r. getProp r ''filename'') es
         = map (\<lambda>f. JStr (name f)) (filter (\<lambda>f. isl (processFile env (name f) (bytes f))) fs)"
      by blast
    with Inr g show ?thesis
      by (intro exI[of _ sent'] exI[of _ "?entry # rs"] exI[of _ es])
         (simp add: resultEntry_def)
  qed
qed

text \<open>
  Claim C9. For a batch that is not empty and has no file above the size limit, the
  handler answers with status 200; the files whose parsing succeeds are, in order, the
  entries of \<^verbatim>\<open>results\<close>, the files whose parsing raises are, in order, the entries of
  \<^verbatim>\<open>errors\<close>; \<^verbatim>\<open>totalFiles\<close>, \<^verbatim>\<open>successfulFiles\<close> and \<^verbatim>\<open>failedFiles\<close> are the number
  of files and the lengths of the two arrays, and the two lengths add up to the number
  of files.
\<close>

theorem processRequest_counts:
  assumes "files \<noteq> []" and "\<forall>f\<in>set files. fileSize f \<le> maxFileSize"
  shows "\<exists>sent' results errors.
           processRequest env files sent =
             (sent', Response 200
                (JObj [(''success'', JBool True),
                       (''results'', JArr results),
                       (''errors'', JArr errors),
                       (''totalFiles'', JNum (of_nat (length files))),
                       (''successfulFiles'', JNum (of_nat (length results))),
                       (''failedFiles'', JNum (of_nat (length errors))),
                       (''timestamp'', JStr (isoNow env sent'))]))
         \<and> length results + length errors = length files
         \<and> map (\<lambda>r. getProp r ''filename'') results
             = map (\<lambda>f. JStr (name f)) (filter (\<lambda>f. \<not> isl (processFile env (name f) (bytes f))) files)
         \<and> map (\<lambda>r. getProp r ''filename'') errors
             = map (\<lambda>f. JStr (name f)) (filter (\<lambda>f. isl (processFile env (name f) (bytes f))) files)"
proof -
  from processFiles_partition[of env files "[]" "[]" sent]
  obtain sent' rs es where p:
    "processFiles env files [] [] sent = (sent', rs, es)"
    "map (\<lambda>r. getProp r ''filename'') rs
       = map (\<lambda>f. JStr (name f)) (filter (\<lambda>f. \<not> isl (processFile env (name f) (bytes f))) files)"
    "map (\<lambda>r. getProp r ''filename'') es
       = map (\<lambda>f. JStr (name f)) (filter (\<lambda>f. isl (processFile env (name f) (bytes f))) files)"
    by auto
  have "length rs = length (filter (\<lambda>f. \<not> isl (processFile env (name f) (bytes f))) files)"
    using arg_cong[OF p(2), of length] by simp
  moreover have "length es = length (filter (\<lambda>f. isl (processFile env (name f) (bytes f))) files)"
    using arg_cong[OF p(3), of length] by simp
  ultimately have len: "length rs + length es = length files"
    using sum_length_filter_compl[of "\<lambda>f. isl (processFile env (name f) (bytes f))" files] by simp
  have big: "\<not> list_ex (\<lambda>file. fileSize file > maxFileSize) files"
    using assms(2) by (auto simp: list_ex_iff)
  have "processRequest env files sent =
             (sent', Response 200
                (JObj [(''success'', JBool True),
                       (''results'', JArr rs),
                       (''errors'', JArr es),
                       (''totalFiles'', JNum (of_nat (length files))),
                       (''successfulFiles'', JNum (of_nat (length rs))),
                       (''failedFiles'', JNum (of_nat (length es))),
                       (''timestamp'', JStr (isoNow env sent'))]))"
    using assms(1) big p(1) by (simp add: processRequest_def)
  with len p(2,3) show ?thesis by blast
qed

lemma sample_parse_outcomes:
  "\<not> isl (processFile sampleEnv ''a.csv'' ''x,y'')"
  "processFile sampleEnv ''b.csv'' ''a,b\<newline>1'' = Inl (Error ''Failed to process CSV file: Invalid Record Length'')"
  "\<not> isl (processFile sampleEnv ''scan.Pdf'' ''%PDF'')"
  by (simp_all add: processFile_def Let_def extensionOf_examples processCSV_def processPDF_def
        sampleEnv_def sampleCsv_def)

theorem processRequest_counts_witness:
  "sampleBatch \<noteq> []
   \<and> list_all (\<lambda>f. fileSize f \<le> maxFileSize) sampleBatch
   \<and> processFile sampleEnv ''b.csv'' ''a,b\<newline>1'' = Inl (Error ''Failed to process CSV file: Invalid Record Length'')
   \<and> (\<exists>sent' results errors.
         processRequest sampleEnv sampleBatch [] =
           (sent', Response 200
              (JObj [(''success'', JBool True),
                     (''results'', JArr results),
                     (''errors'', JArr errors),
                     (''totalFiles'', JNum 3),
                     (''successfulFiles'', JNum 2),
                     (''failedFiles'', JNum 1),
                     (''timestamp'', JStr ''2024-01-01T00:00:00.000Z'')]))
         \<and> length results = 2 \<and> length errors = 1
         \<and> map (\<lambda>r. getProp r ''filename'') results = [JStr ''a.csv'', JStr ''scan.Pdf'']
         \<and> map (\<lambda>r. getProp r ''filename'') errors = [JStr ''b.csv''])"
proof -
  have ne: "sampleBatch \<noteq> []" by (simp add: sampleBatch_def)
  have sz: "\<forall>f\<in>set sampleBatch. fileSize f \<le> maxFileSize"
    by (simp add: sampleBatch_def maxFileSize_def)
  from processRequest_counts[OF ne sz, of sampleEnv "[]"]
  obtain sent' results errors where r:
    "processRequest sampleEnv sampleBatch [] =
             (sent', Response 200
                (JObj [(''success'', JBool True),
                       (''results'', JArr results),
                       (''errors'', JArr errors),
                       (''totalFiles'', JNum (of_nat (length sampleBatch))),
                       (''successfulFiles'', JNum (of_nat (length results))),
                       (''failedFiles'', JNum (of_nat (length errors))),
                       (''timestamp'', JStr (isoNow sampleEnv sent'))]))"
    "map (\<lambda>r. getProp r ''filename'') results
       = map (\<lambda>f. JStr (name f)) (filter (\<lambda>f. \<not> isl (processFile sampleEnv (name f) (bytes f))) sampleBatch)"
    "map (\<lambda>r. getProp r ''filename'') errors
       = map (\<lambda>f. JStr (name f)) (filter (\<lambda>f. isl (processFile sampleEnv (name f) (bytes f))) sampleBatch)"
    by blast
  have rs: "map (\<lambda>r. getProp r ''filename'') results = [JStr ''a.csv'', JStr ''scan.Pdf'']"
    unfolding r(2) by (simp add: sampleBatch_def sample_parse_outcomes)
  have es: "map (\<lambda>r. getProp r ''filename'') errors = [JStr ''b.csv'']"
    unfolding r(3) by (simp add: sampleBatch_def sample_parse_outcomes)
  have lr: "length results = 2" using arg_cong[OF rs, of length] by simp
  have le: "length errors = 1" using arg_cong[OF es, of length] by simp
  have now: "isoNow sampleEnv sent' = ''2024-01-01T00:00:00.000Z''" by (simp add: sampleEnv_def)
  have "processRequest sampleEnv sampleBatch [] =
           (sent', Response 200
              (JObj [(''success'', JBool True),
                     (''results'', JArr results),
                     (''errors'', JArr errors),
                     (''totalFiles'', JNum 3),
                     (''successfulFiles'', JNum 2),
                     (''failedFiles'', JNum 1),
                     (''timestamp'', JStr ''2024-01-01T00:00:00.000Z'')]))"
    using r(1) unfolding lr le now by (simp add: sampleBatch_def)
  with rs es lr le ne sz sample_parse_outcomes(2) show ?thesis
    by (auto simp: list_all_iff)
qed

subsection \<open>The two tiers\<close>

text \<open>
  Every pass of a metric through its loop body appends to the call log, and a metric
  that is fulfilled holds a truthy value.
\<close>

lemma tryAttempt_extends: "tryAttempt env mdl data metric tp sent = (sent', r) \<Longrightarrow> prefix sent sent'"
  by (auto simp: tryAttempt_def Let_def split: jsval.splits sum.splits)

lemma resume_extends:
  "resume env mdl data metric tp retries attempt sent = (sent', p) \<Longrightarrow> prefix sent sent'"
  by (auto simp: resume_def split: prod.splits sum.splits dest: tryAttempt_extends)

lemma resume_truthy:
  "resume env mdl data metric tp retries attempt sent = (sent', Settled (Inr v)) \<Longrightarrow> truthy v"
  by (auto simp: resume_def split: prod.splits sum.splits if_splits)

text \<open>One pass of the loop of \<open>processMetric\<close> is one \<open>resume\<close>.\<close>

lemma processMetricLoop_resume:
  assumes "attempt < retries"
  shows "processMetricLoop env mdl data metric tp retries attempt sent =
     (case resume env mdl data metric tp retries attempt sent of
        (sent', Settled r) \<Rightarrow> (sent', r)
      | (sent', Running next) \<Rightarrow> processMetricLoop env mdl data metric tp retries next sent')"
  using assms
  by (subst processMetricLoop.simps)
     (auto simp: resume_def split: prod.splits sum.splits)

lemma runTasks_done:
  "nextTurn env retries tasks sent = None \<Longrightarrow> runTasks env mdl data tp retries tasks sent = (sent, tasks)"
  by (subst runTasks.simps) simp

lemma runTasks_turn:
  assumes "nextTurn env retries tasks sent = Some i"
    and "tasks ! i = (metric, Running attempt)"
    and "resume env mdl data metric tp retries attempt sent = (sent', p)"
  shows "runTasks env mdl data tp retries tasks sent =
           runTasks env mdl data tp retries (tasks[i := (metric, p)]) sent'"
  using assms by (subst runTasks.simps) simp

lemma nextTurn_running:
  assumes "nextTurn env retries tasks sent = Some i"
  obtains metric attempt where "i < length tasks" "tasks ! i = (metric, Running attempt)" "attempt < retries"
proof -
  from ready_running[OF nextTurn_ready[OF assms]]
  obtain attempt where "i < length tasks" "snd (tasks ! i) = Running attempt" "attempt < retries"
    by blast
  then show ?thesis using that[of "fst (tasks ! i)" attempt] by (cases "tasks ! i") auto
qed

lemma nextTurn_None: "nextTurn env retries tasks sent = None \<longleftrightarrow> ready retries tasks = []"
  by (simp add: nextTurn_def Let_def)

text \<open>
  What holds of the call log and the metrics at the start of a tier and is kept by every
  pass of every metric holds when the tier has run; then no metric is left in its loop.
\<close>

lemma runTasks_invariant:
  assumes run: "runTasks env mdl data tp retries tasks sent = (sent', tasks')"
    and init: "I sent tasks"
    and step: "\<And>s ts i metric attempt s' p.
        I s ts \<Longrightarrow> i < length ts \<Longrightarrow> ts ! i = (metric, Running attempt) \<Longrightarrow> attempt < retries
          \<Longrightarrow> resume env mdl data metric tp retries attempt s = (s', p)
          \<Longrightarrow> I s' (ts[i := (metric, p)])"
  shows "I sent' tasks' \<and> ready retries tasks' = []"
  using run init step
proof (induction env mdl data tp retries tasks sent rule: runTasks.induct)
  case (1 env mdl data tp retries tasks sent)
  show ?case
  proof (cases "nextTurn env retries tasks sent")
    case None
    with "1.prems" show ?thesis
      by (simp add: runTasks_done nextTurn_None)
  next
    case (Some i)
    from nextTurn_running[OF Some] obtain metric attempt where
      t: "i < length tasks" "tasks ! i = (metric, Running attempt)" "attempt < retries"
      by blast
    obtain s1 p where r: "resume env mdl data metric tp retries attempt sent = (s1, p)"
      by (cases "resume env mdl data metric tp retries attempt sent")
    have I1: "I s1 (tasks[i := (metric, p)])"
      by (rule "1.prems"(3)[OF "1.prems"(2) t r])
    have run1: "runTasks env mdl data tp retries (tasks[i := (metric, p)]) s1 = (sent', tasks')"
      using "1.prems"(1) runTasks_turn[OF Some t(2) r] by simp
    show ?thesis
      by (rule "1.IH"[OF Some t(2)[symmetric] refl r[symmetric] run1 I1 "1.prems"(3)])
  qed
qed

lemma runTasks_facts:
  assumes "runTasks env mdl data tp retries tasks sent = (sent', tasks')"
    and "\<forall>(m, p) \<in> set tasks. \<forall>v. p = Settled (Inr v) \<longrightarrow> truthy v"
  shows "map fst tasks' = map fst tasks"
    and "prefix sent sent'"
    and "\<forall>(m, p) \<in> set tasks'. \<forall>v. p = Settled (Inr v) \<longrightarrow> truthy v"
proof -
  let ?I = "\<lambda>s ts. map fst ts = map fst tasks \<and> prefix sent s
              \<and> (\<forall>(m, p) \<in> set ts. \<forall>v. p = Settled (Inr v) \<longrightarrow> truthy v)"
  have "?I sent' tasks' \<and> ready retries tasks' = []"
  proof (rule runTasks_invariant[OF assms(1), where I = ?I])
    show "?I sent tasks" using assms(2) by simp
  next
    fix s ts i metric attempt s' p
    assume I: "?I s ts" and i: "i < length ts" and t: "ts ! i = (metric, Running attempt)"
      and a: "attempt < retries" and r: "resume env mdl data metric tp retries attempt s = (s', p)"
    have n: "map fst (ts[i := (metric, p)]) = map fst ts"
      using i t by (simp add: map_update) (metis fst_conv list_update_id map_update nth_map length_map)
    have e: "prefix sent s'"
      using I resume_extends[OF r] by (auto intro: prefix_order.trans)
    have v: "\<forall>(m, q) \<in> set (ts[i := (metric, p)]). \<forall>v. q = Settled (Inr v) \<longrightarrow> truthy v"
    proof (clarify)
      fix m q w
      assume "(m, Settled (Inr w)) \<in> set (ts[i := (metric, p)])"
      then have "(m, Settled (Inr w)) = (metric, p) \<or> (m, Settled (Inr w)) \<in> set ts"
        using set_update_subset_insert by fastforce
      then show "truthy w"
      proof
        assume "(m, Settled (Inr w)) = (metric, p)"
        with r show ?thesis by (auto dest: resume_truthy)
      next
        assume "(m, Settled (Inr w)) \<in> set ts"
        with I show ?thesis by blast
      qed
    qed
    from n e v I show "?I s' (ts[i := (metric, p)])" by simp
  qed
  then show "map fst tasks' = map fst tasks" "prefix sent sent'"
    "\<forall>(m, p) \<in> set tasks'. \<forall>v. p = Settled (Inr v) \<longrightarrow> truthy v"
    by blast+
qed

lemma runMetrics_names:
  "runMetrics env mdl data tp retries metrics sent = (sent', rs) \<Longrightarrow> map fst rs = metrics"
proof -
  assume r: "runMetrics env mdl data tp retries metrics sent = (sent', rs)"
  obtain s ts where t: "runTasks env mdl data tp retries (map (\<lambda>metric. (metric, Running 0)) metrics) sent = (s, ts)"
    by (cases "runTasks env mdl data tp retries (map (\<lambda>metric. (metric, Running 0)) metrics) sent")
  from runTasks_facts(1)[OF t] have "map fst ts = metrics" by (simp add: comp_def)
  moreover from r t have "rs = map (\<lambda>(metric, p). (metric, resultOf metric p)) ts"
    by (simp add: runMetrics_def)
  ultimately show ?thesis by (simp add: comp_def case_prod_unfold)
qed

lemma runMetrics_extends:
  "runMetrics env mdl data tp retries metrics sent = (sent', rs) \<Longrightarrow> prefix sent sent'"
proof -
  assume r: "runMetrics env mdl data tp retries metrics sent = (sent', rs)"
  obtain s ts where t: "runTasks env mdl data tp retries (map (\<lambda>metric. (metric, Running 0)) metrics) sent = (s, ts)"
    by (cases "runTasks env mdl data tp retries (map (\<lambda>metric. (metric, Running 0)) metrics) sent")
  from runTasks_facts(2)[OF t] have "prefix sent s" by auto
  with r t show ?thesis by (simp add: runMetrics_def)
qed

lemma runMetrics_truthy:
  "runMetrics env mdl data tp retries metrics sent = (sent', rs) \<Longrightarrow> (m, Inr v) \<in> set rs \<Longrightarrow> truthy v"
proof -
  assume r: "runMetrics env mdl data tp retries metrics sent = (sent', rs)" and m: "(m, Inr v) \<in> set rs"
  obtain s ts where t: "runTasks env mdl data tp retries (map (\<lambda>metric. (metric, Running 0)) metrics) sent = (s, ts)"
    by (cases "runTasks env mdl data tp retries (map (\<lambda>metric. (metric, Running 0)) metrics) sent")
  from runTasks_facts(3)[OF t] have inv: "\<forall>(m, p) \<in> set ts. \<forall>v. p = Settled (Inr v) \<longrightarrow> truthy v"
    by auto
  from r t have "rs = map (\<lambda>(metric, p). (metric, resultOf metric p)) ts"
    by (simp add: runMetrics_def)
  with m obtain p where p: "(m, p) \<in> set ts" "resultOf m p = Inr v" by auto
  show ?thesis
  proof (cases p)
    case (Running a)
    with p(2) show ?thesis by (auto simp: getFallbackMetric_def)
  next
    case (Settled x)
    with p inv show ?thesis by auto
  qed
qed

text \<open>A tier of one metric is \<open>processMetric\<close>.\<close>

lemma nextTurn_single:
  "attempt < retries \<Longrightarrow> nextTurn env retries [(metric, Running attempt)] sent = Some 0"
  by (simp add: nextTurn_def ready_def Let_def)

lemma nextTurn_single_done:
  "\<not> attempt < retries \<Longrightarrow> nextTurn env retries [(metric, Running attempt)] sent = None"
  by (simp add: nextTurn_def ready_def Let_def)

lemma nextTurn_single_settled: "nextTurn env retries [(metric, Settled r)] sent = None"
  by (simp add: nextTurn_def ready_def Let_def)

lemma resume_next:
  "resume env mdl data metric tp retries attempt sent = (sent', Running nxt) \<Longrightarrow> nxt = attempt + 1"
  by (auto simp: resume_def split: prod.splits sum.splits if_splits)

lemma runTasks_single:
  "runTasks env mdl data tp retries [(metric, Running attempt)] sent = (sent', ts) \<Longrightarrow>
     \<exists>p. ts = [(metric, p)]
       \<and> processMetricLoop env mdl data metric tp retries attempt sent = (sent', resultOf metric p)"
proof (induction "retries - attempt" arbitrary: attempt sent)
  case 0
  then have d: "\<not> attempt < retries" by simp
  from "0.prems" have "sent' = sent" "ts = [(metric, Running attempt)]"
    by (simp_all add: runTasks_done[OF nextTurn_single_done[OF d]])
  moreover have "processMetricLoop env mdl data metric tp retries attempt sent = (sent, Inr (getFallbackMetric metric))"
    using d by (subst processMetricLoop.simps) simp
  ultimately show ?case by simp
next
  case (Suc k)
  then have a: "attempt < retries" by simp
  obtain s1 p1 where r: "resume env mdl data metric tp retries attempt sent = (s1, p1)"
    by (cases "resume env mdl data metric tp retries attempt sent")
  have "[(metric, Running attempt)] ! 0 = (metric, Running attempt)" by simp
  from runTasks_turn[OF nextTurn_single[OF a] this r] Suc.prems
  have run: "runTasks env mdl data tp retries [(metric, p1)] s1 = (sent', ts)"
    by simp
  show ?case
  proof (cases p1)
    case (Settled x)
    with run have "sent' = s1" "ts = [(metric, Settled x)]"
      by (simp_all add: runTasks_done[OF nextTurn_single_settled])
    with r Settled show ?thesis
      by (simp add: processMetricLoop_resume[OF a])
  next
    case (Running nxt)
    with r have n: "nxt = attempt + 1" by (auto dest: resume_next)
    with Suc.hyps(2) have k: "k = retries - nxt" by simp
    from Suc.hyps(1)[OF k] run Running obtain p where
      "ts = [(metric, p)]"
      "processMetricLoop env mdl data metric tp retries nxt s1 = (sent', resultOf metric p)"
      by blast
    with r Running show ?thesis
      by (simp add: processMetricLoop_resume[OF a])
  qed
qed

lemma runMetrics_single:
  "runMetrics env mdl data tp retries [metric] sent =
     (case processMetric env mdl data metric tp retries sent of (sent', r) \<Rightarrow> (sent', [(metric, r)]))"
proof -
  obtain s ts where t: "runTasks env mdl data tp retries [(metric, Running 0)] sent = (s, ts)"
    by (cases "runTasks env mdl data tp retries [(metric, Running 0)] sent")
  from runTasks_single[OF t] t show ?thesis
    by (auto simp: runMetrics_def processMetric_def)
qed

lemma runMetrics_empty: "runMetrics env mdl data tp retries [] sent = (sent, [])"
  by (simp add: runMetrics_def runTasks_done nextTurn_def ready_def)

lemma promiseAll_Inr:
  "promiseAll rs = Inr vs \<Longrightarrow> map fst vs = map fst rs \<and> (\<forall>(m, v) \<in> set vs. (m, Inr v) \<in> set rs)"
proof (induction rs arbitrary: vs rule: promiseAll.induct)
  case 1
  then show ?case by simp
next
  case (2 metric e rs)
  then show ?case by simp
next
  case (3 metric v rs)
  then show ?case by (auto split: sum.splits)
qed

lemma promiseAll_Inl_iff: "isl (promiseAll rs) \<longleftrightarrow> (\<exists>(m, r) \<in> set rs. isl r)"
  by (induction rs rule: promiseAll.induct) (auto split: sum.splits)

lemma deepFallback_names: "map fst (deepFallback sec) = deep sec"
  by (simp add: deepFallback_def comp_def)

lemma deepFallback_truthy: "(m, v) \<in> set (deepFallback sec) \<Longrightarrow> truthy v"
  by (auto simp: deepFallback_def getFallbackMetric_def)

lemma deepTier_spec:
  assumes "runMetrics env mdl data Deep 1 (deep sec) sent1 = (sent2, drs)"
  shows "\<exists>deepResults. deepTier env mdl data sec sent1 = (sent2, deepResults)
           \<and> map fst deepResults = deep sec
           \<and> (\<forall>(m, v) \<in> set deepResults. truthy v)"
proof (cases "deep sec = []")
  case True
  with assms show ?thesis by (simp add: deepTier_def runMetrics_empty)
next
  case False
  show ?thesis
  proof (cases "deepTimerFirst env sent2 \<or> isl (promiseAll drs)")
    case True
    then have "deepTier env mdl data sec sent1 = (sent2, deepFallback sec)"
      using assms False by (auto simp: deepTier_def split: sum.splits)
    then show ?thesis
      using deepFallback_names deepFallback_truthy by auto
  next
    case nf: False
    then obtain vs where vs: "promiseAll drs = Inr vs" by (cases "promiseAll drs") auto
    with nf assms False have d: "deepTier env mdl data sec sent1 = (sent2, vs)"
      by (simp add: deepTier_def)
    from promiseAll_Inr[OF vs] runMetrics_names[OF assms]
    have n: "map fst vs = deep sec" and m: "\<forall>(m, v) \<in> set vs. (m, Inr v) \<in> set drs" by simp_all
    from m runMetrics_truthy[OF assms] have "\<forall>(m, v) \<in> set vs. truthy v" by blast
    with d n show ?thesis by blast
  qed
qed

lemma deepTier_rejected:
  assumes "runMetrics env mdl data Deep 1 (deep sec) sent1 = (sent2, drs)"
    and "(m, Inl e) \<in> set drs"
  shows "deepTier env mdl data sec sent1 = (sent2, deepFallback sec)"
proof -
  from assms(2) have rej: "isl (promiseAll drs)"
    unfolding promiseAll_Inl_iff by (intro bexI[of _ "(m, Inl e)"]) simp_all
  from assms(2) runMetrics_names[OF assms(1)] have "deep sec \<noteq> []" by auto
  with assms(1) rej show ?thesis
    by (auto simp: deepTier_def split: sum.splits)
qed

lemma generateAnalytics_primary_rejected:
  assumes "runMetrics env mdl data Primary 2 (primary sec) sent = (sent1, rs)"
    and "promiseAll rs = Inl e"
  shows "generateAnalytics env (Some mdl) data sec sent = (sent1, getFallbackResponse sec)"
  using assms by (simp add: generateAnalytics_def analyticsBody_def)

lemma generateAnalytics_primary_fulfilled:
  assumes "runMetrics env mdl data Primary 2 (primary sec) sent = (sent1, rs)"
    and "promiseAll rs = Inr primaryResults"
    and "deepTier env mdl data sec sent1 = (sent2, deepResults)"
  shows "generateAnalytics env (Some mdl) data sec sent =
           (sent2, JObj [(''primary'', fromEntries primaryResults), (''deep'', fromEntries deepResults)])"
  using assms by (simp add: generateAnalytics_def analyticsBody_def)

lemma processMetric_single_attempt:
  "processMetric env mdl data metric tp (Suc 0) sent =
     (case tryAttempt env mdl data metric tp sent of
        (sent', Inl e) \<Rightarrow> (sent', Inl e)
      | (sent', Inr v) \<Rightarrow> (sent', Inr (if truthy v then v else getFallbackMetric metric)))"
  unfolding processMetric_def
  by (subst processMetricLoop.simps, simp split: prod.split sum.split)
     (subst processMetricLoop.simps, simp)


text \<open>The two tiers at the section of the handler, with the sample collaborators.\<close>

lemma fileSection_fields:
  "primary fileSection = [''Data Overview'', ''Key Metrics'']"
  "deep fileSection = [''Statistical Analysis'', ''Data Distribution'']"
  by (simp_all add: fileSection_def)


lemma sample_metric_value:
  "metric \<in> set (primary fileSection @ deep fileSection) \<Longrightarrow>
     metricEntry sampleEnv (safeParseResponse (jsonParse sampleEnv) goodReply) metric = okMetric"
  by (auto simp: sampleEnv_def safeParseResponse_goodReply goodValue_def metricEntry_def optIndex_def
        readMember_def fileSection_def okMetric_def)

lemma tryAttempt_sample:
  "tryAttempt sampleEnv mdl sampleDoc metric tp sent =
     (sent @ [buildPrompt ''{}'' (tierKey tp) [metric]],
      case settle (mdl sent (buildPrompt ''{}'' (tierKey tp) [metric])) of
        Inl e \<Rightarrow> Inl e
      | Inr reply \<Rightarrow> Inr (metricEntry sampleEnv (safeParseResponse (jsonParse sampleEnv) reply) metric))"
proof -
  have a: "formatData sampleEnv sampleDoc \<noteq> []" by (simp add: formatData_sample)
  show ?thesis by (simp add: tryAttempt_eq[OF a] promptFor_sample)
qed

lemma resume_flaky_reply:
  assumes "length sent < n" "metric \<in> set (primary fileSection @ deep fileSection)"
  shows "resume sampleEnv (flakyModel n) sampleDoc metric tp retries attempt sent =
           (sent @ [buildPrompt ''{}'' (tierKey tp) [metric]], Settled (Inr okMetric))"
  using assms(1)
  by (simp add: resume_def tryAttempt_sample flakyModel_def sample_metric_value[OF assms(2)] okMetric_def)

lemma resume_flaky_raise:
  assumes "\<not> length sent < n"
  shows "resume sampleEnv (flakyModel n) sampleDoc metric tp retries attempt sent =
           (sent @ [buildPrompt ''{}'' (tierKey tp) [metric]],
            if attempt = retries - 1 then Settled (Inl (Error ''429 Too Many Requests'')) else Running (attempt + 1))"
  using assms by (simp add: resume_def tryAttempt_sample flakyModel_def)

lemma resume_down:
  "resume sampleEnv failingModel sampleDoc metric tp retries attempt sent =
           (sent @ [buildPrompt ''{}'' (tierKey tp) [metric]],
            if attempt = retries - 1 then Settled (Inl (Error ''503 Service Unavailable'')) else Running (attempt + 1))"
  by (simp add: resume_def tryAttempt_sample settle_failingModel)

lemma resume_cold_raise:
  assumes "length sent < n"
  shows "resume sampleEnv (coldModel n) sampleDoc metric tp retries attempt sent =
           (sent @ [buildPrompt ''{}'' (tierKey tp) [metric]],
            if attempt = retries - 1 then Settled (Inl (Error ''503 Service Unavailable'')) else Running (attempt + 1))"
  using assms by (simp add: resume_def tryAttempt_sample coldModel_def)

lemma resume_cold_reply:
  assumes "\<not> length sent < n" "metric \<in> set (primary fileSection @ deep fileSection)"
  shows "resume sampleEnv (coldModel n) sampleDoc metric tp retries attempt sent =
           (sent @ [buildPrompt ''{}'' (tierKey tp) [metric]], Settled (Inr okMetric))"
  using assms(1)
  by (simp add: resume_def tryAttempt_sample coldModel_def sample_metric_value[OF assms(2)] okMetric_def)

lemma sample_schedule: "schedule sampleEnv sent rdy = hd rdy"
  by (simp add: sampleEnv_def)

text \<open>
  A model that raises on the first two requests: both primary metrics make their first
  request before either makes its second, so both first attempts raise and both second
  attempts are answered.
\<close>

lemma sample_cold_run:
  "runMetrics sampleEnv (coldModel 2) sampleDoc Primary 2 (primary fileSection) [] =
     ([buildPrompt ''{}'' ''primary'' [''Data Overview''], buildPrompt ''{}'' ''primary'' [''Key Metrics''],
       buildPrompt ''{}'' ''primary'' [''Data Overview''], buildPrompt ''{}'' ''primary'' [''Key Metrics'']],
      [(''Data Overview'', Inr okMetric), (''Key Metrics'', Inr okMetric)])"
  by (simp add: runMetrics_def fileSection_fields runTasks.simps nextTurn_def ready_def Let_def
        resume_cold_raise resume_cold_reply sample_schedule)

lemma sample_primary_run:
  "2 \<le> n \<Longrightarrow> runMetrics sampleEnv (flakyModel n) sampleDoc Primary 2 (primary fileSection) [] =
     ([buildPrompt ''{}'' ''primary'' [''Data Overview''], buildPrompt ''{}'' ''primary'' [''Key Metrics'']],
      [(''Data Overview'', Inr okMetric), (''Key Metrics'', Inr okMetric)])"
  by (simp add: runMetrics_def fileSection_fields runTasks.simps nextTurn_def ready_def Let_def
        resume_flaky_reply sample_schedule)

lemma sample_deep_run_3:
  "runMetrics sampleEnv (flakyModel 3) sampleDoc Deep 1 (deep fileSection)
      [buildPrompt ''{}'' ''primary'' [''Data Overview''], buildPrompt ''{}'' ''primary'' [''Key Metrics'']] =
     ([buildPrompt ''{}'' ''primary'' [''Data Overview''], buildPrompt ''{}'' ''primary'' [''Key Metrics''],
       buildPrompt ''{}'' ''deep'' [''Statistical Analysis''], buildPrompt ''{}'' ''deep'' [''Data Distribution'']],
      [(''Statistical Analysis'', Inr okMetric), (''Data Distribution'', Inl (Error ''429 Too Many Requests''))])"
  by (simp add: runMetrics_def fileSection_fields runTasks.simps nextTurn_def ready_def Let_def
        resume_flaky_reply resume_flaky_raise sample_schedule)

lemma sample_deep_run_4:
  "runMetrics sampleEnv (flakyModel 4) sampleDoc Deep 1 (deep fileSection)
      [buildPrompt ''{}'' ''primary'' [''Data Overview''], buildPrompt ''{}'' ''primary'' [''Key Metrics'']] =
     ([buildPrompt ''{}'' ''primary'' [''Data Overview''], buildPrompt ''{}'' ''primary'' [''Key Metrics''],
       buildPrompt ''{}'' ''deep'' [''Statistical Analysis''], buildPrompt ''{}'' ''deep'' [''Data Distribution'']],
      [(''Statistical Analysis'', Inr okMetric), (''Data Distribution'', Inr okMetric)])"
  by (simp add: runMetrics_def fileSection_fields runTasks.simps nextTurn_def ready_def Let_def
        resume_flaky_reply sample_schedule)

lemma sample_down_run:
  "runMetrics sampleEnv failingModel sampleDoc Primary 2 (primary fileSection) [] =
     ([buildPrompt ''{}'' ''primary'' [''Data Overview''], buildPrompt ''{}'' ''primary'' [''Key Metrics''],
       buildPrompt ''{}'' ''primary'' [''Data Overview''], buildPrompt ''{}'' ''primary'' [''Key Metrics'']],
      [(''Data Overview'', Inl (Error ''503 Service Unavailable'')),
       (''Key Metrics'', Inl (Error ''503 Service Unavailable''))])"
  by (simp add: runMetrics_def fileSection_fields runTasks.simps nextTurn_def ready_def Let_def
        resume_down sample_schedule)

lemma sample_down_outcome:
  "generateAnalytics sampleEnv (Some failingModel) sampleDoc fileSection [] =
     ([buildPrompt ''{}'' ''primary'' [''Data Overview''], buildPrompt ''{}'' ''primary'' [''Key Metrics''],
       buildPrompt ''{}'' ''primary'' [''Data Overview''], buildPrompt ''{}'' ''primary'' [''Key Metrics'']],
      JObj [(''primary'',
               JObj [(''Data Overview'', JStr ''Analysis pending for Data Overview''),
                     (''Key Metrics'', JStr ''Analysis pending for Key Metrics'')]),
            (''deep_metrics'',
               JObj [(''Statistical Analysis'', JStr ''Deep analysis pending for Statistical Analysis''),
                     (''Data Distribution'', JStr ''Deep analysis pending for Data Distribution'')])])"
proof -
  have "promiseAll [(''Data Overview'', Inl (Error ''503 Service Unavailable'')),
       (''Key Metrics'', Inl (Error ''503 Service Unavailable''))] = Inl (Error ''503 Service Unavailable'')"
    by simp
  from generateAnalytics_primary_rejected[OF sample_down_run this] show ?thesis
    by (simp add: getFallbackResponse_def fileSection_fields fromEntries_plain keyIndex_letter)
qed


lemma promiseAll_fulfilled: "promiseAll (map (\<lambda>(m, v). (m, Inr v)) vs) = Inr vs"
  by (induction vs) auto

lemma promiseAll_Inr_eq: "promiseAll rs = Inr vs \<Longrightarrow> rs = map (\<lambda>(m, v). (m, Inr v)) vs"
proof (induction rs arbitrary: vs rule: promiseAll.induct)
  case 1
  then show ?case by simp
next
  case (2 metric e rs)
  then show ?case by simp
next
  case (3 metric v rs)
  then show ?case by (auto split: sum.splits)
qed

lemma deepTier_eq:
  assumes "runMetrics env mdl data Deep 1 (deep sec) sent1 = (sent2, drs)"
  shows "deepTier env mdl data sec sent1 =
           (sent2, if deepTimerFirst env sent2 then deepFallback sec
                   else case promiseAll drs of Inl err \<Rightarrow> deepFallback sec | Inr vs \<Rightarrow> vs)"
proof (cases "deep sec = []")
  case True
  with assms show ?thesis
    by (auto simp: deepTier_def runMetrics_empty deepFallback_def)
next
  case False
  with assms show ?thesis by (simp add: deepTier_def)
qed

text \<open>
  Claim C3, as amended. The tiers run one after the other. The primary tier is run and
  awaited first. When one of its metrics raises, the outcome is the fallback response
  of the section and the call log is the one the primary tier left (with the requests
  that its other metrics still make): no deep metric is run. When all of them are
  fulfilled, the deep tier is run from that call log on (its requests all come behind
  the primary ones) and the outcome keeps the primary results whatever the deep tier
  does. Its \<^verbatim>\<open>deep\<close> map is made of the results of the deep metrics themselves
  when the timer has not come first and no deep metric has raised, and of the fallback
  metric for every deep metric name otherwise; in both cases it has a truthy entry for
  every deep metric name.
\<close>

theorem tiers_run_in_sequence:
  assumes "runMetrics env mdl data Primary 2 (primary sec) sent = (sent1, rs)"
  shows "prefix sent sent1
     \<and> (case promiseAll rs of
           Inl err \<Rightarrow> generateAnalytics env (Some mdl) data sec sent = (sent1, getFallbackResponse sec)
         | Inr primaryResults \<Rightarrow>
             (\<exists>sent2 drs deepResults.
                 runMetrics env mdl data Deep 1 (deep sec) sent1 = (sent2, drs)
               \<and> prefix sent1 sent2
               \<and> map fst drs = deep sec
               \<and> deepResults =
                   (if deepTimerFirst env sent2
                    then map (\<lambda>metric. (metric, getFallbackMetric metric)) (deep sec)
                    else case promiseAll drs of
                           Inl err \<Rightarrow> map (\<lambda>metric. (metric, getFallbackMetric metric)) (deep sec)
                         | Inr fulfilled \<Rightarrow> fulfilled)
               \<and> (deepResults = map (\<lambda>metric. (metric, getFallbackMetric metric)) (deep sec)
                    \<or> drs = map (\<lambda>(metric, v). (metric, Inr v)) deepResults)
               \<and> generateAnalytics env (Some mdl) data sec sent =
                   (sent2, JObj [(''primary'', fromEntries primaryResults),
                                 (''deep'', fromEntries deepResults)])
               \<and> map fst deepResults = deep sec
               \<and> list_all (\<lambda>metric. truthy (getProp (fromEntries deepResults) metric)) (deep sec)))"
proof (cases "promiseAll rs")
  case (Inl err)
  from generateAnalytics_primary_rejected[OF assms Inl] runMetrics_extends[OF assms] Inl
  show ?thesis by simp
next
  case (Inr primaryResults)
  obtain sent2 drs where d: "runMetrics env mdl data Deep 1 (deep sec) sent1 = (sent2, drs)"
    by (cases "runMetrics env mdl data Deep 1 (deep sec) sent1")
  define deepResults where "deepResults =
      (if deepTimerFirst env sent2
       then map (\<lambda>metric. (metric, getFallbackMetric metric)) (deep sec)
       else case promiseAll drs of
              Inl err \<Rightarrow> map (\<lambda>metric. (metric, getFallbackMetric metric)) (deep sec)
            | Inr fulfilled \<Rightarrow> fulfilled)"
  have t: "deepTier env mdl data sec sent1 = (sent2, deepResults)"
    using deepTier_eq[OF d] unfolding deepResults_def deepFallback_def by simp
  from deepTier_spec[OF d] t have dr:
    "map fst deepResults = deep sec"
    "\<forall>(m, v) \<in> set deepResults. truthy v"
    by auto
  have alt: "deepResults = map (\<lambda>metric. (metric, getFallbackMetric metric)) (deep sec)
        \<or> drs = map (\<lambda>(metric, v). (metric, Inr v)) deepResults"
  proof (cases "promiseAll drs")
    case (Inl err)
    then show ?thesis by (simp add: deepResults_def)
  next
    case (Inr fulfilled)
    from promiseAll_Inr_eq[OF Inr] Inr show ?thesis by (simp add: deepResults_def)
  qed
  have "truthy (getProp (fromEntries deepResults) metric)" if "metric \<in> set (deep sec)" for metric
  proof (rule getProp_fromEntries_truthy[OF _ dr(2)])
    from that dr(1) show "metric \<in> fst ` set deepResults" by (metis set_map)
  qed
  then have all: "list_all (\<lambda>metric. truthy (getProp (fromEntries deepResults) metric)) (deep sec)"
    by (simp add: list_all_iff)
  have g: "generateAnalytics env (Some mdl) data sec sent =
      (sent2, JObj [(''primary'', fromEntries primaryResults), (''deep'', fromEntries deepResults)])"
    by (rule generateAnalytics_primary_fulfilled[OF assms Inr t])
  have "\<exists>sent2 drs deepResults.
                 runMetrics env mdl data Deep 1 (deep sec) sent1 = (sent2, drs)
               \<and> prefix sent1 sent2
               \<and> map fst drs = deep sec
               \<and> deepResults =
                   (if deepTimerFirst env sent2
                    then map (\<lambda>metric. (metric, getFallbackMetric metric)) (deep sec)
                    else case promiseAll drs of
                           Inl err \<Rightarrow> map (\<lambda>metric. (metric, getFallbackMetric metric)) (deep sec)
                         | Inr fulfilled \<Rightarrow> fulfilled)
               \<and> (deepResults = map (\<lambda>metric. (metric, getFallbackMetric metric)) (deep sec)
                    \<or> drs = map (\<lambda>(metric, v). (metric, Inr v)) deepResults)
               \<and> generateAnalytics env (Some mdl) data sec sent =
                   (sent2, JObj [(''primary'', fromEntries primaryResults),
                                 (''deep'', fromEntries deepResults)])
               \<and> map fst deepResults = deep sec
               \<and> list_all (\<lambda>metric. truthy (getProp (fromEntries deepResults) metric)) (deep sec)"
    using d runMetrics_extends[OF d] runMetrics_names[OF d] deepResults_def alt g dr(1) all
    by (intro exI[of _ sent2] exI[of _ drs] exI[of _ deepResults]) simp
  with runMetrics_extends[OF assms] Inr show ?thesis by simp
qed

theorem tiers_run_in_sequence_witness:
  "runMetrics sampleEnv (flakyModel 4) sampleDoc Primary 2 (primary fileSection) [] =
     ([buildPrompt ''{}'' ''primary'' [''Data Overview''], buildPrompt ''{}'' ''primary'' [''Key Metrics'']],
      [(''Data Overview'', Inr okMetric), (''Key Metrics'', Inr okMetric)])
   \<and> generateAnalytics sampleEnv (Some (flakyModel 4)) sampleDoc fileSection [] =
       ([buildPrompt ''{}'' ''primary'' [''Data Overview''], buildPrompt ''{}'' ''primary'' [''Key Metrics''],
         buildPrompt ''{}'' ''deep'' [''Statistical Analysis''], buildPrompt ''{}'' ''deep'' [''Data Distribution'']],
        JObj [(''primary'', JObj [(''Data Overview'', okMetric), (''Key Metrics'', okMetric)]),
              (''deep'', JObj [(''Statistical Analysis'', okMetric), (''Data Distribution'', okMetric)])])"
proof -
  have p: "runMetrics sampleEnv (flakyModel 4) sampleDoc Primary 2 (primary fileSection) [] =
     ([buildPrompt ''{}'' ''primary'' [''Data Overview''], buildPrompt ''{}'' ''primary'' [''Key Metrics'']],
      [(''Data Overview'', Inr okMetric), (''Key Metrics'', Inr okMetric)])"
    by (rule sample_primary_run) simp
  have pa: "promiseAll [(''Data Overview'', Inr okMetric), (''Key Metrics'', Inr okMetric)] =
      Inr [(''Data Overview'', okMetric), (''Key Metrics'', okMetric)]"
    by simp
  have timer: "deepTimerFirst sampleEnv s = False" for s by (simp add: sampleEnv_def)
  from tiers_run_in_sequence[OF p, unfolded pa sum.case sample_deep_run_4]
  obtain deepResults where g:
    "deepResults = (if deepTimerFirst sampleEnv
                         [buildPrompt ''{}'' ''primary'' [''Data Overview''], buildPrompt ''{}'' ''primary'' [''Key Metrics''],
                          buildPrompt ''{}'' ''deep'' [''Statistical Analysis''], buildPrompt ''{}'' ''deep'' [''Data Distribution'']]
                    then map (\<lambda>metric. (metric, getFallbackMetric metric)) (deep fileSection)
                    else case promiseAll [(''Statistical Analysis'', Inr okMetric), (''Data Distribution'', Inr okMetric)] of
                           Inl err \<Rightarrow> map (\<lambda>metric. (metric, getFallbackMetric metric)) (deep fileSection)
                         | Inr fulfilled \<Rightarrow> fulfilled)"
    "generateAnalytics sampleEnv (Some (flakyModel 4)) sampleDoc fileSection [] =
       ([buildPrompt ''{}'' ''primary'' [''Data Overview''], buildPrompt ''{}'' ''primary'' [''Key Metrics''],
         buildPrompt ''{}'' ''deep'' [''Statistical Analysis''], buildPrompt ''{}'' ''deep'' [''Data Distribution'']],
        JObj [(''primary'', fromEntries [(''Data Overview'', okMetric), (''Key Metrics'', okMetric)]),
              (''deep'', fromEntries deepResults)])"
    by auto
  from g(1) have dr: "deepResults = [(''Statistical Analysis'', okMetric), (''Data Distribution'', okMetric)]"
    by (simp add: timer)
  have f: "fromEntries [(''Data Overview'', okMetric), (''Key Metrics'', okMetric)] =
      JObj [(''Data Overview'', okMetric), (''Key Metrics'', okMetric)]"
    "fromEntries [(''Statistical Analysis'', okMetric), (''Data Distribution'', okMetric)] =
      JObj [(''Statistical Analysis'', okMetric), (''Data Distribution'', okMetric)]"
    by (simp_all add: fromEntries_plain keyIndex_letter)
  from g(2) p show ?thesis unfolding dr f by simp
qed

text \<open>
  The section of the handler has two deep metrics. With the model down, the four
  requests of the primary tier are all the requests made, and the outcome has no
  \<^verbatim>\<open>deep\<close> results: the deep tier was not run.
\<close>

theorem deep_tier_skipped_when_primary_fails:
  "deep fileSection \<noteq> []
   \<and> fst (generateAnalytics sampleEnv (Some failingModel) sampleDoc fileSection []) =
       [buildPrompt ''{}'' ''primary'' [''Data Overview''], buildPrompt ''{}'' ''primary'' [''Key Metrics''],
        buildPrompt ''{}'' ''primary'' [''Data Overview''], buildPrompt ''{}'' ''primary'' [''Key Metrics'']]
   \<and> getProp (snd (generateAnalytics sampleEnv (Some failingModel) sampleDoc fileSection [])) ''deep'' = JUndefined
   \<and> getProp (getProp (snd (generateAnalytics sampleEnv (Some failingModel) sampleDoc fileSection [])) ''deep_metrics'')
        ''Statistical Analysis'' = JStr ''Deep analysis pending for Statistical Analysis''"
  by (simp add: sample_down_outcome fileSection_fields)


text \<open>
  Claim C10. When the primary tier is fulfilled and one deep metric raises, the whole
  \<^verbatim>\<open>deep\<close> map is the fallback metric for every deep metric name, whatever the other
  deep metrics returned and whether or not the 15 second timer came first. A deep
  metric has one attempt: a raise of that attempt is the raise of the metric.
\<close>

theorem deep_tier_rejection_discards_all:
  assumes "runMetrics env mdl data Primary 2 (primary sec) sent = (sent1, rs)"
    and "promiseAll rs = Inr primaryResults"
    and "runMetrics env mdl data Deep 1 (deep sec) sent1 = (sent2, drs)"
    and "(m, Inl e) \<in> set drs"
  shows "generateAnalytics env (Some mdl) data sec sent =
           (sent2, JObj [(''primary'', fromEntries primaryResults),
                         (''deep'', fromEntries (map (\<lambda>metric. (metric, getFallbackMetric metric)) (deep sec)))])
         \<and> (\<forall>metric s. processMetric env mdl data metric Deep 1 s =
               (case tryAttempt env mdl data metric Deep s of
                  (s', Inl err) \<Rightarrow> (s', Inl err)
                | (s', Inr v) \<Rightarrow> (s', Inr (if truthy v then v else getFallbackMetric metric))))"
  using generateAnalytics_primary_fulfilled[OF assms(1,2) deepTier_rejected[OF assms(3,4)]]
    processMetric_single_attempt
  by (simp add: deepFallback_def)


theorem deep_tier_rejection_discards_all_witness:
  "runMetrics sampleEnv (flakyModel 3) sampleDoc Primary 2 (primary fileSection) [] =
     ([buildPrompt ''{}'' ''primary'' [''Data Overview''], buildPrompt ''{}'' ''primary'' [''Key Metrics'']],
      [(''Data Overview'', Inr okMetric), (''Key Metrics'', Inr okMetric)])
   \<and> promiseAll [(''Data Overview'', Inr okMetric), (''Key Metrics'', Inr okMetric)] =
        Inr [(''Data Overview'', okMetric), (''Key Metrics'', okMetric)]
   \<and> runMetrics sampleEnv (flakyModel 3) sampleDoc Deep 1 (deep fileSection)
        [buildPrompt ''{}'' ''primary'' [''Data Overview''], buildPrompt ''{}'' ''primary'' [''Key Metrics'']] =
       ([buildPrompt ''{}'' ''primary'' [''Data Overview''], buildPrompt ''{}'' ''primary'' [''Key Metrics''],
         buildPrompt ''{}'' ''deep'' [''Statistical Analysis''], buildPrompt ''{}'' ''deep'' [''Data Distribution'']],
        [(''Statistical Analysis'', Inr okMetric), (''Data Distribution'', Inl (Error ''429 Too Many Requests''))])
   \<and> generateAnalytics sampleEnv (Some (flakyModel 3)) sampleDoc fileSection [] =
       ([buildPrompt ''{}'' ''primary'' [''Data Overview''], buildPrompt ''{}'' ''primary'' [''Key Metrics''],
         buildPrompt ''{}'' ''deep'' [''Statistical Analysis''], buildPrompt ''{}'' ''deep'' [''Data Distribution'']],
        JObj [(''primary'', JObj [(''Data Overview'', okMetric), (''Key Metrics'', okMetric)]),
              (''deep'', JObj [(''Statistical Analysis'', getFallbackMetric ''Statistical Analysis''),
                               (''Data Distribution'', getFallbackMetric ''Data Distribution'')])])"
proof -
  have p: "runMetrics sampleEnv (flakyModel 3) sampleDoc Primary 2 (primary fileSection) [] =
     ([buildPrompt ''{}'' ''primary'' [''Data Overview''], buildPrompt ''{}'' ''primary'' [''Key Metrics'']],
      [(''Data Overview'', Inr okMetric), (''Key Metrics'', Inr okMetric)])"
    by (rule sample_primary_run) simp
  have pa: "promiseAll [(''Data Overview'', Inr okMetric), (''Key Metrics'', Inr okMetric)] =
      Inr [(''Data Overview'', okMetric), (''Key Metrics'', okMetric)]"
    by simp
  have m: "(''Data Distribution'', Inl (Error ''429 Too Many Requests''))
      \<in> set [(''Statistical Analysis'', Inr okMetric), (''Data Distribution'', Inl (Error ''429 Too Many Requests''))]"
    by simp
  from deep_tier_rejection_discards_all[OF p pa sample_deep_run_3 m] p pa sample_deep_run_3
  show ?thesis by (simp add: fromEntries_plain keyIndex_letter fileSection_fields)
qed

text \<open>
  Claim C2, at the section of the handler with the model down: both attempts of the
  first primary metric raise, the \<^verbatim>\<open>catch\<close> of \<open>generateAnalytics\<close> takes over, and what
  comes back is not an outcome with a \<^verbatim>\<open>primary\<close> and a \<^verbatim>\<open>deep\<close> map of metric
  results: the second key is \<^verbatim>\<open>deep_metrics\<close>, there is no \<^verbatim>\<open>deep\<close>, and every metric
  name is mapped to a plain string.
\<close>

theorem generateAnalytics_fallback_shape:
  "snd (generateAnalytics sampleEnv (Some failingModel) sampleDoc fileSection []) =
     JObj [(''primary'',
              JObj [(''Data Overview'', JStr ''Analysis pending for Data Overview''),
                    (''Key Metrics'', JStr ''Analysis pending for Key Metrics'')]),
           (''deep_metrics'',
              JObj [(''Statistical Analysis'', JStr ''Deep analysis pending for Statistical Analysis''),
                    (''Data Distribution'', JStr ''Deep analysis pending for Data Distribution'')])]
   \<and> getProp (snd (generateAnalytics sampleEnv (Some failingModel) sampleDoc fileSection [])) ''deep'' = JUndefined"
  by (simp add: sample_down_outcome)

end
